theory Spec2Isabelle
  imports Main
begin

section \<open>Syntax trees, semantic tables and range sets\<close>

text \<open>
  The highlighter of \<^verbatim>\<open>gopls/internal/lsp/source/highlight_gox.go\<close> works on the
  syntax tree of one Go+ file. A node of the tree is a pointer in the Go code; the model
  gives every node an identity \<open>nid\<close>, its start offset \<open>Pos\<close>, its end offset \<open>End\<close>
  and a shape. A pointer comparison \<^verbatim>\<open>a == b\<close> of the source is the comparison of the two
  identities. The shapes are the node kinds the highlighter distinguishes, with the fields
  it reads; every other node kind is \<open>Other\<close>, with the children \<^verbatim>\<open>ast.Walk\<close> visits.
\<close>

datatype token = BREAK | CONTINUE | GOTO | FALLTHROUGH

datatype 'n shape =
    is_Ident: Ident (Name: string)
  | is_BasicLit: BasicLit
  | is_ImportSpec: ImportSpec (ImpName: "'n option") (Path: 'n)
  | is_Field: Field (kids: "'n list")
  | is_FieldList: FieldList (List: "'n list")
  | is_FuncType: FuncType (TypeParams: "'n option") (Params: "'n option") (FResults: "'n option")
  | is_FuncLit: FuncLit (Type: 'n) (Body: 'n)
  | is_FuncDecl: FuncDecl (Recv: "'n option") (DeclName: 'n) (Type: 'n) (DeclBody: "'n option")
  | is_ReturnStmt: ReturnStmt (Results: "'n list")
  | is_KeyValueExpr: KeyValueExpr (Key: 'n) (Value: 'n)
  | is_CallExpr: CallExpr (Fun: 'n) (Args: "'n list")
  | is_SelectorExpr: SelectorExpr (X: 'n) (Sel: 'n)
  | is_LabeledStmt: LabeledStmt (Label: 'n) (Stmt: 'n)
  | is_BranchStmt: BranchStmt (Tok: token) (BLabel: "'n option")
  | is_ForStmt: ForStmt (kids: "'n list")
  | is_RangeStmt: RangeStmt (kids: "'n list")
  | is_SwitchStmt: SwitchStmt (kids: "'n list")
  | is_SelectStmt: SelectStmt (kids: "'n list")
  | is_File: File (kids: "'n list")
  | is_Other: Other (kids: "'n list")

datatype node = Node (nid: nat) (Pos: int) (End: int) (shape: "node shape")

text \<open>The children of a node, in the order in which \<^verbatim>\<open>ast.Walk\<close> visits them.\<close>

definition opt_list :: "'a option \<Rightarrow> 'a list" where
  "opt_list x = (case x of None \<Rightarrow> [] | Some y \<Rightarrow> [y])"

fun shape_children :: "'n shape \<Rightarrow> 'n list" where
  "shape_children (Ident s) = []"
| "shape_children BasicLit = []"
| "shape_children (ImportSpec nm p) = opt_list nm @ [p]"
| "shape_children (Field ks) = ks"
| "shape_children (FieldList fs) = fs"
| "shape_children (FuncType tps ps rs) = opt_list tps @ opt_list ps @ opt_list rs"
| "shape_children (FuncLit ty b) = [ty, b]"
| "shape_children (FuncDecl rc nm ty b) = opt_list rc @ [nm, ty] @ opt_list b"
| "shape_children (ReturnStmt rs) = rs"
| "shape_children (KeyValueExpr k v) = [k, v]"
| "shape_children (CallExpr f as) = f # as"
| "shape_children (SelectorExpr x s) = [x, s]"
| "shape_children (LabeledStmt l s) = [l, s]"
| "shape_children (BranchStmt t l) = opt_list l"
| "shape_children (ForStmt ks) = ks"
| "shape_children (RangeStmt ks) = ks"
| "shape_children (SwitchStmt ks) = ks"
| "shape_children (SelectStmt ks) = ks"
| "shape_children (File ks) = ks"
| "shape_children (Other ks) = ks"

definition children :: "node \<Rightarrow> node list" where
  "children n = shape_children (shape n)"

text \<open>
  \<^verbatim>\<open>ast.Inspect(root, f)\<close>: call \<open>f\<close> on the node; when it answers true, inspect the
  children in order. The callbacks of the highlighter update the result set, which the
  model threads through as state. (The final call \<^verbatim>\<open>f(nil)\<close> of \<^verbatim>\<open>ast.Walk\<close> changes
  nothing in any callback of this file and is left out.)
\<close>

function Inspect :: "node \<Rightarrow> (node \<Rightarrow> 's \<Rightarrow> bool \<times> 's) \<Rightarrow> 's \<Rightarrow> 's" where
  "Inspect n f s =
     (case f n s of
        (True, s') \<Rightarrow> fold (\<lambda>c. Inspect c f) (children n) s'
      | (False, s') \<Rightarrow> s')"
  by pat_completeness auto
termination
proof (relation "measure (\<lambda>(n, f, s). size n)")
  show "wf (measure (\<lambda>(n :: node, f :: node \<Rightarrow> 's \<Rightarrow> bool \<times> 's, s :: 's). size n))"
    by simp
next
  fix n :: node and f :: "node \<Rightarrow> 's \<Rightarrow> bool \<times> 's" and s :: 's and x1 x2 c
  assume "c \<in> set (children n)"
  then have "c \<in> set_shape (shape n)"
    by (cases "shape n") (auto simp: children_def opt_list_def split: option.splits)
  then have "size c < Suc (size_shape size (shape n))"
    by (cases "shape n")
      (auto simp: less_Suc_eq_le
        dest!: size_list_estimation'[where f = size and y = "size c", OF _ order_refl]
        split: option.splits)
  then have "size c < size n"
    by (cases n) simp
  then show "((c, f, x2), (n, f, s)) \<in> measure (\<lambda>(n, f, s). size n)"
    by simp
qed

declare Inspect.simps [simp del]

text \<open>
  The nodes one \<^verbatim>\<open>ast.Inspect\<close> reaches from \<open>n\<close> when its callback answers \<open>d\<close>: the
  node itself and, below a node where \<open>d\<close> holds, what is reached from its children.
\<close>

function walk :: "(node \<Rightarrow> bool) \<Rightarrow> node \<Rightarrow> node list" where
  "walk d n = n # (if d n then concat (map (walk d) (children n)) else [])"
  by pat_completeness auto
termination
proof (relation "measure (\<lambda>(d, n). size n)")
  show "wf (measure (\<lambda>(d :: node \<Rightarrow> bool, n :: node). size n))"
    by simp
next
  fix d :: "node \<Rightarrow> bool" and n c :: node
  assume "c \<in> set (children n)"
  then have "c \<in> set_shape (shape n)"
    by (cases "shape n") (auto simp: children_def opt_list_def split: option.splits)
  then have "size c < Suc (size_shape size (shape n))"
    by (cases "shape n")
      (auto simp: less_Suc_eq_le
        dest!: size_list_estimation'[where f = size and y = "size c", OF _ order_refl]
        split: option.splits)
  then have "size c < size n"
    by (cases n) simp
  then show "((d, c), (d, n)) \<in> measure (\<lambda>(d, n). size n)"
    by simp
qed

declare walk.simps [simp del]

text \<open>
  The semantic tables of \<^verbatim>\<open>typesutil.Info\<close>. An object is an identity; the highlighter
  only asks whether it is a \<^verbatim>\<open>*types.PkgName\<close>. The Go maps are keyed by node pointers: a
  key that is absent, and a key whose entry is nil, both read as \<open>None\<close>. \<open>ObjectOf\<close> is
  the method \<^verbatim>\<open>Info.ObjectOf\<close>, which is not among the sources and is kept as a component
  of its own.
\<close>

datatype object = PkgName nat | Object nat

record Info =
  Defs :: "nat \<Rightarrow> object option"
  Uses :: "nat \<Rightarrow> object option"
  Implicits :: "nat \<Rightarrow> object option"
  ObjectOf :: "nat \<Rightarrow> object option"

text \<open>\<^verbatim>\<open>info.Uses[l]\<close> and \<^verbatim>\<open>info.Defs[l]\<close> for a label pointer that may be nil: the nil
  pointer is no key of the tables.\<close>

definition UsesOf :: "Info \<Rightarrow> node option \<Rightarrow> object option" where
  "UsesOf info l = (case l of None \<Rightarrow> None | Some i \<Rightarrow> Uses info (nid i))"

definition DefsOf :: "Info \<Rightarrow> node option \<Rightarrow> object option" where
  "DefsOf info l = (case l of None \<Rightarrow> None | Some i \<Rightarrow> Defs info (nid i))"

text \<open>\<^verbatim>\<open>posRange{start, end}\<close>; the result \<^verbatim>\<open>map[posRange]struct{}\<close> is a set of ranges.\<close>

type_synonym posRange = "int \<times> int"

definition rangeOf :: "node \<Rightarrow> posRange" where
  "rangeOf n = (Pos n, End n)"

section \<open>Function exits\<close>

text \<open>
  \<^verbatim>\<open>node.Type.Results\<close> of a function literal or declaration, and \<^verbatim>\<open>resultsList.List\<close>.
  In Go the field \<^verbatim>\<open>Type\<close> is a \<^verbatim>\<open>*ast.FuncType\<close> and \<^verbatim>\<open>Results\<close> a \<^verbatim>\<open>*ast.FieldList\<close> by
  their static types; on a tree of any other form the accessors answer nil.
\<close>

definition funcTypeResults :: "node \<Rightarrow> node option" where
  "funcTypeResults n =
     (let ty = Type (shape n) in
      if is_FuncType (shape ty) then FResults (shape ty) else None)"

definition fieldListList :: "node \<Rightarrow> node list" where
  "fieldListList l = (if is_FieldList (shape l) then List (shape l) else [])"

record walkState =
  enclosingFunc :: "node option"
  returnStmt :: "node option"
  resultsList :: "node option"
  inReturnList :: bool

text \<open>
  The loop \<^verbatim>\<open>Outer\<close> of \<^verbatim>\<open>gopHighlightFuncControlFlow\<close> over the path, innermost node
  first: \<open>p0\<close> is \<^verbatim>\<open>path[0]\<close>, \<open>prev\<close> is \<^verbatim>\<open>path[i-1]\<close> (none when \<^verbatim>\<open>i = 0\<close>). The answer
  \<open>None\<close> is the \<^verbatim>\<open>return\<close> inside the loop, which leaves the function with nothing added.
\<close>

fun funcWalk :: "node \<Rightarrow> node option \<Rightarrow> node list \<Rightarrow> walkState \<Rightarrow> walkState option" where
  "funcWalk p0 prev [] w = Some w"
| "funcWalk p0 prev (n # ns) w =
     (if is_KeyValueExpr (shape n) then None
      else if is_CallExpr (shape n) then
        (case prev of
           Some a \<Rightarrow>
             if (\<exists>arg \<in> set (Args (shape n)). nid arg = nid a) then None
             else funcWalk p0 (Some n) ns w
         | None \<Rightarrow> funcWalk p0 (Some n) ns w)
      else if is_Field (shape n) then funcWalk p0 (Some n) ns (w\<lparr>inReturnList := True\<rparr>)
      else if is_FuncLit (shape n) \<or> is_FuncDecl (shape n) then
        Some (w\<lparr>enclosingFunc := Some n, resultsList := funcTypeResults n\<rparr>)
      else if is_ReturnStmt (shape n) then
        funcWalk p0 (Some n) ns
          (w\<lparr>returnStmt := Some n, inReturnList := (inReturnList w \<or> nid p0 \<noteq> nid n)\<rparr>)
      else funcWalk p0 (Some n) ns w)"

text \<open>The callback of the \<^verbatim>\<open>ast.Inspect\<close> over the enclosing function.\<close>

definition returnVisit ::
  "node \<Rightarrow> bool \<Rightarrow> int \<Rightarrow> node \<Rightarrow> posRange set \<Rightarrow> bool \<times> posRange set" where
  "returnVisit enclosing highlightAll index n result =
     (if is_FuncDecl (shape n) \<or> is_FuncLit (shape n) then (nid enclosing = nid n, result)
      else if \<not> is_ReturnStmt (shape n) then (True, result)
      else
        (let toAdd = (if highlightAll then Some n else None);
             toAdd = (if -1 < index \<and> index < int (length (Results (shape n)))
                      then Some (Results (shape n) ! nat index) else toAdd)
         in (False, case toAdd of Some a \<Rightarrow> insert (rangeOf a) result | None \<Rightarrow> result)))"

text \<open>
  The pieces of \<^verbatim>\<open>gopHighlightFuncControlFlow\<close> after its loop, for the state \<open>w\<close> the
  loop has left and the enclosing function \<open>f\<close>: the test that returns early on an
  identifier or literal outside of any return statement and result list; the final value
  of \<^verbatim>\<open>highlightAllReturnsAndFunc\<close>; the list \<^verbatim>\<open>nodes\<close>; and the range of the result
  field at \<^verbatim>\<open>index\<close>.
\<close>

definition walkInit :: walkState where
  "walkInit = \<lparr>enclosingFunc = None, returnStmt = None, resultsList = None,
               inReturnList = False\<rparr>"

definition unrelatedCursor :: "node \<Rightarrow> walkState \<Rightarrow> bool" where
  "unrelatedCursor p0 w =
     ((is_Ident (shape p0) \<or> is_BasicLit (shape p0))
      \<and> returnStmt w = None \<and> \<not> inReturnList w)"

definition highlightAllReturnsAndFunc :: "node \<Rightarrow> walkState \<Rightarrow> node \<Rightarrow> bool" where
  "highlightAllReturnsAndFunc p0 w f =
     ((case returnStmt w of Some r \<Rightarrow> nid p0 = nid r | None \<Rightarrow> False)
      \<or> nid p0 = nid f \<or> is_FuncType (shape p0))"

definition resultNodes :: "walkState \<Rightarrow> node list" where
  "resultNodes w =
     (case returnStmt w of
        Some r \<Rightarrow> Results (shape r)
      | None \<Rightarrow> (case resultsList w of Some l \<Rightarrow> fieldListList l | None \<Rightarrow> []))"

definition resultField :: "int \<Rightarrow> walkState \<Rightarrow> posRange set" where
  "resultField index w =
     (case resultsList w of
        Some l \<Rightarrow>
          if -1 < index \<and> index < int (length (fieldListList l))
          then {rangeOf (fieldListList l ! nat index)} else {}
      | None \<Rightarrow> {})"

text \<open>
  \<^verbatim>\<open>gopHighlightFuncControlFlow\<close>. The helper \<^verbatim>\<open>nodeAtPos\<close> is not among the sources; the
  function takes it as its first argument (the index it answers, \<open>-1\<close> for none).
\<close>

definition gopHighlightFuncControlFlow ::
  "(node list \<Rightarrow> int \<Rightarrow> int) \<Rightarrow> node list \<Rightarrow> posRange set \<Rightarrow> posRange set" where
  "gopHighlightFuncControlFlow nodeAtPos path result =
     (case path of
        [] \<Rightarrow> result
      | p0 # _ \<Rightarrow>
        (case funcWalk p0 None path walkInit of
           None \<Rightarrow> result
         | Some w \<Rightarrow>
           (case enclosingFunc w of
              None \<Rightarrow> result
            | Some f \<Rightarrow>
                if unrelatedCursor p0 w then result
                else
                  let highlightAll = highlightAllReturnsAndFunc p0 w f;
                      index = nodeAtPos (resultNodes w) (Pos p0);
                      result = result \<union> resultField index w;
                      result = (if highlightAll then insert (Pos f, Pos f + 4) result
                                else result)
                  in Inspect f (returnVisit f highlightAll index) result)))"

section \<open>Loops and switches\<close>

text \<open>\<^verbatim>\<open>gopLabelFor\<close>: the label of \<^verbatim>\<open>path[0]\<close> when \<^verbatim>\<open>path[1]\<close> is a labeled statement.\<close>

definition gopLabelFor :: "node list \<Rightarrow> node option" where
  "gopLabelFor path =
     (case path of
        _ # n # _ \<Rightarrow> if is_LabeledStmt (shape n) then Some (Label (shape n)) else None
      | _ \<Rightarrow> None)"

definition isLoop :: "node \<Rightarrow> bool" where
  "isLoop n = (is_ForStmt (shape n) \<or> is_RangeStmt (shape n))"

text \<open>
  The loop \<^verbatim>\<open>Outer\<close> of \<^verbatim>\<open>gopHighlightLoopControlFlow\<close>: the first loop of the path whose
  label is the statement's label, or the first loop when the statement has none. It answers
  the loop with \<^verbatim>\<open>loopLabel\<close>. The comparison \<^verbatim>\<open>loopLabel == stmtLabel\<close> is one of
  pointers, either of which may be nil.
\<close>

fun findLoop :: "node option \<Rightarrow> node list \<Rightarrow> (node \<times> node option) option" where
  "findLoop stmtLabel [] = None"
| "findLoop stmtLabel (n # rest) =
     (if isLoop n then
        (let loopLabel = gopLabelFor (n # rest) in
         if stmtLabel = None \<or> map_option nid loopLabel = map_option nid stmtLabel
         then Some (n, loopLabel)
         else findLoop stmtLabel rest)
      else findLoop stmtLabel rest)"

text \<open>The three callbacks of \<^verbatim>\<open>gopHighlightLoopControlFlow\<close>, in the order of the source.\<close>

definition loopBranchVisit ::
  "node \<Rightarrow> node option \<Rightarrow> Info \<Rightarrow> node \<Rightarrow> posRange set \<Rightarrow> bool \<times> posRange set" where
  "loopBranchVisit loop loopLabel info n result =
     (if isLoop n then (nid loop = nid n, result)
      else if is_SwitchStmt (shape n) \<or> is_SelectStmt (shape n) then (False, result)
      else if \<not> is_BranchStmt (shape n) then (True, result)
      else if BLabel (shape n) = None \<or> UsesOf info (BLabel (shape n)) = DefsOf info loopLabel
      then (True, insert (rangeOf n) result)
      else (True, result))"

definition loopContinueVisit :: "node \<Rightarrow> node \<Rightarrow> posRange set \<Rightarrow> bool \<times> posRange set" where
  "loopContinueVisit loop n result =
     (if isLoop n then (nid loop = nid n, result)
      else if is_BranchStmt (shape n) \<and> Tok (shape n) = CONTINUE
      then (True, insert (rangeOf n) result)
      else (True, result))"

definition labeledBranchVisit ::
  "node option \<Rightarrow> Info \<Rightarrow> node \<Rightarrow> posRange set \<Rightarrow> bool \<times> posRange set" where
  "labeledBranchVisit loopLabel info n result =
     (if \<not> is_BranchStmt (shape n) then (True, result)
      else if BLabel (shape n) \<noteq> None \<and> UsesOf info (BLabel (shape n)) = DefsOf info loopLabel
      then (True, insert (rangeOf n) result)
      else (True, result))"

definition gopHighlightLoopControlFlow ::
  "node list \<Rightarrow> Info \<Rightarrow> posRange set \<Rightarrow> posRange set" where
  "gopHighlightLoopControlFlow path info result =
     (case findLoop (gopLabelFor path) path of
        None \<Rightarrow> result
      | Some (loop, loopLabel) \<Rightarrow>
          let result = insert (Pos loop, Pos loop + 3) result;
              result = Inspect loop (loopBranchVisit loop loopLabel info) result;
              result = Inspect loop (loopContinueVisit loop) result
          in if loopLabel = None then result
             else Inspect loop (labeledBranchVisit loopLabel info) result)"

text \<open>\<^verbatim>\<open>gopHighlightSwitchFlow\<close>, with its loop over the path and its two callbacks.\<close>

fun findSwitch :: "node option \<Rightarrow> node list \<Rightarrow> (node \<times> node option) option" where
  "findSwitch stmtLabel [] = None"
| "findSwitch stmtLabel (n # rest) =
     (if is_SwitchStmt (shape n) then
        (let switchNodeLabel = gopLabelFor (n # rest) in
         if stmtLabel = None \<or> map_option nid switchNodeLabel = map_option nid stmtLabel
         then Some (n, switchNodeLabel)
         else findSwitch stmtLabel rest)
      else findSwitch stmtLabel rest)"

definition switchBreakVisit ::
  "node \<Rightarrow> node option \<Rightarrow> Info \<Rightarrow> node \<Rightarrow> posRange set \<Rightarrow> bool \<times> posRange set" where
  "switchBreakVisit switchNode switchNodeLabel info n result =
     (if is_SwitchStmt (shape n) then (nid switchNode = nid n, result)
      else if isLoop n \<or> is_SelectStmt (shape n) then (False, result)
      else if \<not> is_BranchStmt (shape n) \<or> Tok (shape n) \<noteq> BREAK then (True, result)
      else if BLabel (shape n) = None
              \<or> UsesOf info (BLabel (shape n)) = DefsOf info switchNodeLabel
      then (True, insert (rangeOf n) result)
      else (True, result))"

definition labeledBreakVisit ::
  "node option \<Rightarrow> Info \<Rightarrow> node \<Rightarrow> posRange set \<Rightarrow> bool \<times> posRange set" where
  "labeledBreakVisit switchNodeLabel info n result =
     (if \<not> is_BranchStmt (shape n) \<or> Tok (shape n) \<noteq> BREAK then (True, result)
      else if BLabel (shape n) \<noteq> None
              \<and> UsesOf info (BLabel (shape n)) = DefsOf info switchNodeLabel
      then (True, insert (rangeOf n) result)
      else (True, result))"

definition gopHighlightSwitchFlow ::
  "node list \<Rightarrow> Info \<Rightarrow> posRange set \<Rightarrow> posRange set" where
  "gopHighlightSwitchFlow path info result =
     (case findSwitch (gopLabelFor path) path of
        None \<Rightarrow> result
      | Some (switchNode, switchNodeLabel) \<Rightarrow>
          let result = insert (Pos switchNode, Pos switchNode + 6) result;
              result = Inspect switchNode (switchBreakVisit switchNode switchNodeLabel info) result
          in if switchNodeLabel = None then result
             else Inspect switchNode (labeledBreakVisit switchNodeLabel info) result)"

section \<open>Branch statements\<close>

text \<open>
  \<^verbatim>\<open>gopHighlightUnlabeledBreakFlow\<close>: the loop over the path stops at the first loop, switch
  or select; the highlighter it calls receives the whole path.
\<close>

fun unlabeledBreakWalk ::
  "node list \<Rightarrow> node list \<Rightarrow> Info \<Rightarrow> posRange set \<Rightarrow> posRange set" where
  "unlabeledBreakWalk path [] info result = result"
| "unlabeledBreakWalk path (n # ns) info result =
     (if isLoop n then gopHighlightLoopControlFlow path info result
      else if is_SwitchStmt (shape n) then gopHighlightSwitchFlow path info result
      else if is_SelectStmt (shape n) then result
      else unlabeledBreakWalk path ns info result)"

definition gopHighlightUnlabeledBreakFlow ::
  "node list \<Rightarrow> Info \<Rightarrow> posRange set \<Rightarrow> posRange set" where
  "gopHighlightUnlabeledBreakFlow path info result = unlabeledBreakWalk path path info result"

text \<open>
  \<^verbatim>\<open>gopHighlightLabeledFlow\<close>: \<open>use\<close> is \<^verbatim>\<open>info.Uses[stmt.Label]\<close>; the loop stops at the
  first labeled statement of the path whose label defines \<open>use\<close>.
\<close>

fun labeledWalk :: "node list \<Rightarrow> Info \<Rightarrow> object \<Rightarrow> posRange set \<Rightarrow> posRange set" where
  "labeledWalk [] info use result = result"
| "labeledWalk (n # ns) info use result =
     (if is_LabeledStmt (shape n) \<and> Defs info (nid (Label (shape n))) = Some use then
        (let s = Stmt (shape n) in
         if isLoop s then gopHighlightLoopControlFlow [s, n] info result
         else if is_SwitchStmt (shape s) then gopHighlightSwitchFlow [s, n] info result
         else result)
      else labeledWalk ns info use result)"

definition gopHighlightLabeledFlow ::
  "node list \<Rightarrow> Info \<Rightarrow> node \<Rightarrow> posRange set \<Rightarrow> posRange set" where
  "gopHighlightLabeledFlow path info stmt result =
     (case UsesOf info (BLabel (shape stmt)) of
        None \<Rightarrow> result
      | Some use \<Rightarrow> labeledWalk path info use result)"

section \<open>Identifiers and imports\<close>

text \<open>\<^verbatim>\<open>GopImportedPkgName\<close>: the object an import declares, when it is a package name.\<close>

definition GopImportedPkgName :: "Info \<Rightarrow> node \<Rightarrow> object option" where
  "GopImportedPkgName info imp =
     (let obj = (case ImpName (shape imp) of
                   Some nm \<Rightarrow> Defs info (nid nm)
                 | None \<Rightarrow> Implicits info (nid imp))
      in case obj of Some (PkgName k) \<Rightarrow> Some (PkgName k) | _ \<Rightarrow> None)"

definition identVisit ::
  "node \<Rightarrow> Info \<Rightarrow> object option \<Rightarrow> node \<Rightarrow> posRange set \<Rightarrow> bool \<times> posRange set" where
  "identVisit ident info obj n result =
     (if is_Ident (shape n) then
        (if Name (shape n) = Name (shape ident) \<and> ObjectOf info (nid n) = obj
         then (True, insert (rangeOf n) result)
         else (True, result))
      else if is_ImportSpec (shape n) then
        (case GopImportedPkgName info n of
           Some pkgname \<Rightarrow>
             if Some pkgname = obj then
               (case ImpName (shape n) of
                  Some nm \<Rightarrow> (True, insert (rangeOf nm) result)
                | None \<Rightarrow> (True, insert (rangeOf n) result))
             else (True, result)
         | None \<Rightarrow> (True, result))
      else (True, result))"

definition gopHighlightIdentifier ::
  "node \<Rightarrow> node \<Rightarrow> Info \<Rightarrow> posRange set \<Rightarrow> posRange set" where
  "gopHighlightIdentifier ident file info result =
     Inspect file (identVisit ident info (ObjectOf info (nid ident))) result"

text \<open>The callback of the import-path case of \<^verbatim>\<open>gopHighlightPath\<close>.\<close>

definition importUseVisit ::
  "Info \<Rightarrow> object \<Rightarrow> node \<Rightarrow> posRange set \<Rightarrow> bool \<times> posRange set" where
  "importUseVisit info pkgname n result =
     (if is_Ident (shape n) \<and> Uses info (nid n) = Some pkgname
      then (True, insert (rangeOf n) result)
      else (True, result))"

section \<open>Dispatch\<close>

text \<open>
  The errors of \<^verbatim>\<open>GopHighlight\<close>: the package of the file is not found, the position is
  not one of the file, no node encloses the position, a range has no editor coordinates.
  \<open>IndexPanic\<close> is the run-time panic of \<^verbatim>\<open>path[0]\<close> on an empty path.
\<close>

datatype error = PackageError | PositionError | NoEnclosingPosition | RangeError | IndexPanic

definition gopHighlightPath ::
  "(node list \<Rightarrow> int \<Rightarrow> int) \<Rightarrow> node list \<Rightarrow> node \<Rightarrow> Info \<Rightarrow> error + posRange set" where
  "gopHighlightPath nodeAtPos path file info =
     (case path of
        [] \<Rightarrow> Inl IndexPanic
      | node # rest \<Rightarrow>
          if is_BasicLit (shape node) then
            (case rest of
               imp # _ \<Rightarrow>
                 if is_ImportSpec (shape imp) then
                   (let result = insert (rangeOf imp) {} in
                    case GopImportedPkgName info imp of
                      Some pkgname \<Rightarrow> Inr (Inspect file (importUseVisit info pkgname) result)
                    | None \<Rightarrow> Inr result)
                 else Inr (gopHighlightFuncControlFlow nodeAtPos path {})
             | [] \<Rightarrow> Inr (gopHighlightFuncControlFlow nodeAtPos path {}))
          else if is_ReturnStmt (shape node) \<or> is_FuncDecl (shape node)
                  \<or> is_FuncType (shape node) then
            Inr (gopHighlightFuncControlFlow nodeAtPos path {})
          else if is_Ident (shape node) then
            Inr (gopHighlightIdentifier node file info
                   (gopHighlightFuncControlFlow nodeAtPos path {}))
          else if isLoop node then Inr (gopHighlightLoopControlFlow path info {})
          else if is_SwitchStmt (shape node) then Inr (gopHighlightSwitchFlow path info {})
          else if is_BranchStmt (shape node) then
            (case Tok (shape node) of
               BREAK \<Rightarrow>
                 if BLabel (shape node) \<noteq> None
                 then Inr (gopHighlightLabeledFlow path info node {})
                 else Inr (gopHighlightUnlabeledBreakFlow path info {})
             | CONTINUE \<Rightarrow>
                 if BLabel (shape node) \<noteq> None
                 then Inr (gopHighlightLabeledFlow path info node {})
                 else Inr (gopHighlightLoopControlFlow path info {})
             | _ \<Rightarrow> Inr {})
          else Inr {})"

text \<open>
  Lines 37 to 55 of \<^verbatim>\<open>GopHighlight\<close>: the path of the position and, when its innermost
  node is no identifier, the path of the position before it if that one ends in an
  identifier or a selector. \<^verbatim>\<open>astutil.PathEnclosingInterval\<close> is not among the sources and
  is the first argument.
\<close>

definition enclosingPath ::
  "(node \<Rightarrow> int \<Rightarrow> int \<Rightarrow> node list) \<Rightarrow> node \<Rightarrow> int \<Rightarrow> error + node list" where
  "enclosingPath PathEnclosingInterval file pos =
     (let path = PathEnclosingInterval file pos pos in
      if path = [] then Inl NoEnclosingPosition
      else if \<not> is_Ident (shape (hd path)) then
        (let p = PathEnclosingInterval file (pos - 1) (pos - 1) in
         if p \<noteq> [] \<and> (is_Ident (shape (hd p)) \<or> is_SelectorExpr (shape (hd p)))
         then Inr p else Inr path)
      else Inr path)"

text \<open>
  \<^verbatim>\<open>GopHighlight\<close>. \<open>pkg\<close> is what \<^verbatim>\<open>NarrowestPackageForGopFile\<close> found (the parsed
  file and the tables of its package), \<open>PositionPos\<close> and \<open>PosRange\<close> are the conversions
  of the parsed file between editor coordinates and offsets; each of them can fail. The
  ranges are drawn from a Go map, in no order: the answer is their set.
\<close>

definition GopHighlight ::
  "(node list \<Rightarrow> int \<Rightarrow> int) \<Rightarrow> (node \<Rightarrow> int \<Rightarrow> int \<Rightarrow> node list) \<Rightarrow> (node \<times> Info) option
   \<Rightarrow> ('p \<Rightarrow> int option) \<Rightarrow> (posRange \<Rightarrow> 'r option) \<Rightarrow> 'p \<Rightarrow> error + 'r set" where
  "GopHighlight nodeAtPos PathEnclosingInterval pkg PositionPos PosRange position =
     (case pkg of
        None \<Rightarrow> Inl PackageError
      | Some (file, info) \<Rightarrow>
        (case PositionPos position of
           None \<Rightarrow> Inl PositionError
         | Some pos \<Rightarrow>
           (case enclosingPath PathEnclosingInterval file pos of
              Inl e \<Rightarrow> Inl e
            | Inr path \<Rightarrow>
              (case gopHighlightPath nodeAtPos path file info of
                 Inl e \<Rightarrow> Inl e
               | Inr result \<Rightarrow>
                   if (\<exists>rng \<in> result. PosRange rng = None) then Inl RangeError
                   else Inr (\<Union>rng \<in> result. set_option (PosRange rng))))))"

section \<open>Traversals and contributions, as the specification words them\<close>

text \<open>
  The boundary rules of the traversals: whether a traversal that has reached \<open>n\<close> goes on
  below it. The function traversal stays out of every function other than the enclosing
  one and does not enter a return statement; the first loop traversal stays out of nested
  loops, switches and selects; the traversal for \<^verbatim>\<open>continue\<close> stays out of nested loops
  only; the switch traversal stays out of nested switches, loops and selects.
\<close>

definition funcDescend :: "node \<Rightarrow> node \<Rightarrow> bool" where
  "funcDescend f n =
     (if is_FuncDecl (shape n) \<or> is_FuncLit (shape n) then nid f = nid n
      else \<not> is_ReturnStmt (shape n))"

definition loopBreakDescend :: "node \<Rightarrow> node \<Rightarrow> bool" where
  "loopBreakDescend loop n =
     (if isLoop n then nid loop = nid n
      else \<not> (is_SwitchStmt (shape n) \<or> is_SelectStmt (shape n)))"

definition loopContinueDescend :: "node \<Rightarrow> node \<Rightarrow> bool" where
  "loopContinueDescend loop n = (if isLoop n then nid loop = nid n else True)"

definition switchDescend :: "node \<Rightarrow> node \<Rightarrow> bool" where
  "switchDescend sw n =
     (if is_SwitchStmt (shape n) then nid sw = nid n
      else \<not> (isLoop n \<or> is_SelectStmt (shape n)))"

definition everywhere :: "node \<Rightarrow> bool" where
  "everywhere n = True"

text \<open>
  What one return statement contributes: its result at the index when it has one,
  otherwise the whole statement under highlight-all, otherwise nothing.
\<close>

definition returnUnit :: "bool \<Rightarrow> int \<Rightarrow> node \<Rightarrow> posRange set" where
  "returnUnit highlightAll index n =
     (if \<not> is_ReturnStmt (shape n) then {}
      else if -1 < index \<and> index < int (length (Results (shape n)))
      then {rangeOf (Results (shape n) ! nat index)}
      else if highlightAll then {rangeOf n} else {})"

text \<open>The branch statements a loop or a switch highlights.\<close>

definition labelMatches :: "Info \<Rightarrow> node option \<Rightarrow> node \<Rightarrow> bool" where
  "labelMatches info targetLabel b =
     (UsesOf info (BLabel (shape b)) = DefsOf info targetLabel)"

definition exitBranch :: "Info \<Rightarrow> node option \<Rightarrow> node \<Rightarrow> bool" where
  "exitBranch info targetLabel b =
     (is_BranchStmt (shape b) \<and> (BLabel (shape b) = None \<or> labelMatches info targetLabel b))"

definition continueBranch :: "node \<Rightarrow> bool" where
  "continueBranch b = (is_BranchStmt (shape b) \<and> Tok (shape b) = CONTINUE)"

definition labeledBranch :: "Info \<Rightarrow> node option \<Rightarrow> node \<Rightarrow> bool" where
  "labeledBranch info targetLabel b =
     (is_BranchStmt (shape b) \<and> BLabel (shape b) \<noteq> None \<and> labelMatches info targetLabel b)"

definition isBreak :: "node \<Rightarrow> bool" where
  "isBreak b = (is_BranchStmt (shape b) \<and> Tok (shape b) = BREAK)"

text \<open>The first loop, switch or select of a path; the first labeled statement of a path
  whose label defines a given object.\<close>

definition firstEnclosing :: "node list \<Rightarrow> node option" where
  "firstEnclosing path =
     find (\<lambda>n. isLoop n \<or> is_SwitchStmt (shape n) \<or> is_SelectStmt (shape n)) path"

definition labelTarget :: "Info \<Rightarrow> object \<Rightarrow> node list \<Rightarrow> node option" where
  "labelTarget info use path =
     find (\<lambda>n. is_LabeledStmt (shape n) \<and> Defs info (nid (Label (shape n))) = Some use) path"

text \<open>What one node contributes to identifier highlighting.\<close>

definition identUnit :: "node \<Rightarrow> Info \<Rightarrow> object option \<Rightarrow> node \<Rightarrow> posRange set" where
  "identUnit ident info obj n =
     (if is_Ident (shape n) then
        (if Name (shape n) = Name (shape ident) \<and> ObjectOf info (nid n) = obj
         then {rangeOf n} else {})
      else if is_ImportSpec (shape n) \<and> GopImportedPkgName info n \<noteq> None
              \<and> GopImportedPkgName info n = obj
      then {case ImpName (shape n) of Some nm \<Rightarrow> rangeOf nm | None \<Rightarrow> rangeOf n}
      else {})"

text \<open>
  An identifier with the name and the object of the cursor's identifier; an import
  declaration whose package name is the object \<open>obj\<close>; the range such an import
  contributes, its alias when it has one and the whole declaration otherwise.
\<close>

definition sameIdentifier :: "node \<Rightarrow> Info \<Rightarrow> node \<Rightarrow> bool" where
  "sameIdentifier ident info m =
     (is_Ident (shape m) \<and> Name (shape m) = Name (shape ident)
      \<and> ObjectOf info (nid m) = ObjectOf info (nid ident))"

definition importOf :: "Info \<Rightarrow> object option \<Rightarrow> node \<Rightarrow> bool" where
  "importOf info obj n =
     (is_ImportSpec (shape n) \<and> GopImportedPkgName info n \<noteq> None
      \<and> GopImportedPkgName info n = obj)"

definition importRange :: "node \<Rightarrow> posRange" where
  "importRange n = (case ImpName (shape n) of Some nm \<Rightarrow> rangeOf nm | None \<Rightarrow> rangeOf n)"

text \<open>The node kinds \<^verbatim>\<open>gopHighlightPath\<close> has a case for.\<close>

definition recognized :: "node \<Rightarrow> bool" where
  "recognized n =
     (is_BasicLit (shape n) \<or> is_ReturnStmt (shape n) \<or> is_FuncDecl (shape n)
      \<or> is_FuncType (shape n) \<or> is_Ident (shape n) \<or> isLoop n
      \<or> is_SwitchStmt (shape n) \<or> is_BranchStmt (shape n))"

text \<open>
  Renaming: the same tree with every identifier spelled anew by \<open>g\<close>; identities, offsets
  and shapes are kept.
\<close>

fun renameShape :: "(string \<Rightarrow> string) \<Rightarrow> 'n shape \<Rightarrow> 'n shape" where
  "renameShape g (Ident nm) = Ident (g nm)"
| "renameShape g s = s"

primrec rename :: "(string \<Rightarrow> string) \<Rightarrow> node \<Rightarrow> node" where
  "rename g (Node i p e s) = Node i p e (renameShape g (map_shape (rename g) s))"

section \<open>The helpers outside the sources\<close>

text \<open>
  Modelled from the spec: \<^verbatim>\<open>nodeAtPos\<close> is not among the sources. Section 4.3a, step 5:
  the positional index of the entry of the list that contains the cursor, an extent being
  the half-open interval of section 3; \<open>-1\<close> when there is none.
\<close>

fun nodeAtPosFrom :: "int \<Rightarrow> node list \<Rightarrow> int \<Rightarrow> int" where
  "nodeAtPosFrom i [] pos = -1"
| "nodeAtPosFrom i (n # ns) pos =
     (if Pos n \<le> pos \<and> pos < End n then i else nodeAtPosFrom (i + 1) ns pos)"

definition nodeAtPos :: "node list \<Rightarrow> int \<Rightarrow> int" where
  "nodeAtPos nodes pos = nodeAtPosFrom 0 nodes pos"

text \<open>
  Modelled from the spec: \<^verbatim>\<open>astutil.PathEnclosingInterval\<close> is not among the sources.
  Section 4.1: the chain of the nodes whose extents contain the interval, innermost first,
  ending at the file root; a zero-width position covers the unit that follows it. Section
  3: every offset from the start of the file to its length is a cursor position, so the
  path of the offset at the end of the file is the file root. Section 8, property 8: there
  is no path for an offset outside of the file.
\<close>

function pathFrom :: "node \<Rightarrow> int \<Rightarrow> int \<Rightarrow> node list" where
  "pathFrom n s e =
     (case find (\<lambda>c. Pos c \<le> s \<and> e \<le> End c) (children n) of
        None \<Rightarrow> [n]
      | Some c \<Rightarrow> pathFrom c s e @ [n])"
  by pat_completeness auto
termination
proof (relation "measure (\<lambda>(n, s, e). size n)")
  show "wf (measure (\<lambda>(n :: node, s :: int, e :: int). size n))"
    by simp
next
  fix n c :: node and s e :: int
  assume "find (\<lambda>c. Pos c \<le> s \<and> e \<le> End c) (children n) = Some c"
  then have "c \<in> set (children n)"
    by (auto simp: find_Some_iff)
  then have "c \<in> set_shape (shape n)"
    by (cases "shape n") (auto simp: children_def opt_list_def split: option.splits)
  then have "size c < Suc (size_shape size (shape n))"
    by (cases "shape n")
      (auto simp: less_Suc_eq_le
        dest!: size_list_estimation'[where f = size and y = "size c", OF _ order_refl]
        split: option.splits)
  then have "size c < size n"
    by (cases n) simp
  then show "((c, s, e), (n, s, e)) \<in> measure (\<lambda>(n, s, e). size n)"
    by simp
qed

declare pathFrom.simps [simp del]

definition PathEnclosingInterval :: "node \<Rightarrow> int \<Rightarrow> int \<Rightarrow> node list" where
  "PathEnclosingInterval root start stop =
     (let e = (if start = stop then start + 1 else stop) in
      if Pos root \<le> start \<and> e \<le> End root then pathFrom root start e
      else if Pos root \<le> start \<and> start \<le> End root then [root]
      else [])"



section \<open>Example files\<close>

text \<open>
  Small syntax trees, with the offsets of their source text, on which the theorems below
  are run. A block, a case clause, a parenthesis, a composite literal and a binary
  expression are nodes of shape \<open>Other\<close>.
\<close>

text \<open>\<^verbatim>\<open>func f() T { return x; return y }\<close>\<close>

definition ret2_x :: node where "ret2_x = Node 10 20 21 (Ident ''x'')"
definition ret2_y :: node where "ret2_y = Node 12 30 31 (Ident ''y'')"
definition ret2_ret1 :: node where "ret2_ret1 = Node 9 13 21 (ReturnStmt [ret2_x])"
definition ret2_ret2 :: node where "ret2_ret2 = Node 11 23 31 (ReturnStmt [ret2_y])"
definition ret2_body :: node where "ret2_body = Node 8 11 33 (Other [ret2_ret1, ret2_ret2])"
definition ret2_type :: node where
  "ret2_type = Node 3 0 10
     (FuncType None (Some (Node 4 6 8 (FieldList [])))
        (Some (Node 5 9 10 (FieldList [Node 6 9 10 (Field [Node 7 9 10 (Ident ''T'')])]))))"
definition ret2_func :: node where
  "ret2_func = Node 1 0 33 (FuncDecl None (Node 2 5 6 (Ident ''f'')) ret2_type (Some ret2_body))"
definition ret2_file :: node where "ret2_file = Node 0 0 33 (File [ret2_func])"

definition ret2_info :: Info where
  "ret2_info =
     \<lparr>Defs = Map.empty,
      Uses = [10 \<mapsto> Object 1, 12 \<mapsto> Object 2, 7 \<mapsto> Object 3],
      Implicits = Map.empty,
      ObjectOf = [10 \<mapsto> Object 1, 12 \<mapsto> Object 2, 7 \<mapsto> Object 3]\<rparr>"

text \<open>\<^verbatim>\<open>func g() T { return (func())(nil) }\<close>\<close>

definition conv_type :: node where
  "conv_type = Node 12 21 27 (FuncType None (Some (Node 13 25 27 (FieldList []))) None)"
definition conv_paren :: node where "conv_paren = Node 11 20 28 (Other [conv_type])"
definition conv_call :: node where
  "conv_call = Node 10 20 33 (CallExpr conv_paren [Node 14 29 32 (Ident ''nil'')])"
definition conv_ret :: node where "conv_ret = Node 9 13 33 (ReturnStmt [conv_call])"
definition conv_body :: node where "conv_body = Node 8 11 35 (Other [conv_ret])"
definition conv_func :: node where
  "conv_func = Node 1 0 35
     (FuncDecl None (Node 2 5 6 (Ident ''g''))
        (Node 3 0 10
           (FuncType None (Some (Node 4 6 8 (FieldList [])))
              (Some (Node 5 9 10 (FieldList [Node 6 9 10 (Field [Node 7 9 10 (Ident ''T'')])])))))
        (Some conv_body))"
definition conv_file :: node where "conv_file = Node 0 0 35 (File [conv_func])"

text \<open>\<^verbatim>\<open>func h() M { return M{k: v} }\<close>\<close>

definition kv_v :: node where "kv_v = Node 14 25 26 (Ident ''v'')"
definition kv_kv :: node where
  "kv_kv = Node 12 22 26 (KeyValueExpr (Node 13 22 23 (Ident ''k'')) kv_v)"
definition kv_lit :: node where
  "kv_lit = Node 10 20 27 (Other [Node 11 20 21 (Ident ''M''), kv_kv])"
definition kv_ret :: node where "kv_ret = Node 9 13 27 (ReturnStmt [kv_lit])"
definition kv_body :: node where "kv_body = Node 8 11 29 (Other [kv_ret])"
definition kv_func :: node where
  "kv_func = Node 1 0 29
     (FuncDecl None (Node 2 5 6 (Ident ''h''))
        (Node 3 0 10
           (FuncType None (Some (Node 4 6 8 (FieldList [])))
              (Some (Node 5 9 10 (FieldList [Node 6 9 10 (Field [Node 7 9 10 (Ident ''M'')])])))))
        (Some kv_body))"
definition kv_file :: node where "kv_file = Node 0 0 29 (File [kv_func])"

text \<open>\<^verbatim>\<open>func f() { Outer: for { for { continue Outer } } }\<close>\<close>

definition nest_continue :: node where
  "nest_continue = Node 7 30 44 (BranchStmt CONTINUE (Some (Node 8 39 44 (Ident ''Outer''))))"
definition nest_inner :: node where
  "nest_inner = Node 5 24 46 (ForStmt [Node 6 28 46 (Other [nest_continue])])"
definition nest_block :: node where "nest_block = Node 4 22 48 (Other [nest_inner])"
definition nest_outer :: node where "nest_outer = Node 3 18 48 (ForStmt [nest_block])"
definition nest_labeled :: node where
  "nest_labeled = Node 1 11 48 (LabeledStmt (Node 2 11 16 (Ident ''Outer'')) nest_outer)"
definition nest_body :: node where "nest_body = Node 9 9 50 (Other [nest_labeled])"
definition nest_func :: node where
  "nest_func = Node 10 0 50
     (FuncDecl None (Node 11 5 6 (Ident ''f''))
        (Node 12 0 8 (FuncType None (Some (Node 13 6 8 (FieldList []))) None))
        (Some nest_body))"
definition nest_file :: node where "nest_file = Node 0 0 50 (File [nest_func])"

definition nest_info :: Info where
  "nest_info =
     \<lparr>Defs = [2 \<mapsto> Object 1], Uses = [8 \<mapsto> Object 1], Implicits = Map.empty,
      ObjectOf = [2 \<mapsto> Object 1, 8 \<mapsto> Object 1]\<rparr>"

text \<open>\<^verbatim>\<open>func f() { L: switch { case 1: for { break L } } }\<close>\<close>

definition lsw_break :: node where
  "lsw_break = Node 9 37 44 (BranchStmt BREAK (Some (Node 10 43 44 (Ident ''L''))))"
definition lsw_block :: node where "lsw_block = Node 8 35 46 (Other [lsw_break])"
definition lsw_for :: node where "lsw_for = Node 7 31 46 (ForStmt [lsw_block])"
definition lsw_case :: node where
  "lsw_case = Node 5 23 46 (Other [Node 6 28 29 BasicLit, lsw_for])"
definition lsw_body :: node where "lsw_body = Node 4 21 48 (Other [lsw_case])"
definition lsw_switch :: node where "lsw_switch = Node 3 14 48 (SwitchStmt [lsw_body])"
definition lsw_labeled :: node where
  "lsw_labeled = Node 1 11 48 (LabeledStmt (Node 2 11 12 (Ident ''L'')) lsw_switch)"
definition lsw_fbody :: node where "lsw_fbody = Node 11 9 50 (Other [lsw_labeled])"
definition lsw_func :: node where
  "lsw_func = Node 12 0 50
     (FuncDecl None (Node 13 5 6 (Ident ''f''))
        (Node 14 0 8 (FuncType None (Some (Node 15 6 8 (FieldList []))) None))
        (Some lsw_fbody))"
definition lsw_file :: node where "lsw_file = Node 0 0 50 (File [lsw_func])"

definition lsw_info :: Info where
  "lsw_info =
     \<lparr>Defs = [2 \<mapsto> Object 1], Uses = [10 \<mapsto> Object 1], Implicits = Map.empty,
      ObjectOf = [2 \<mapsto> Object 1, 10 \<mapsto> Object 1]\<rparr>"

definition no_info :: Info where
  "no_info = \<lparr>Defs = Map.empty, Uses = Map.empty, Implicits = Map.empty,
              ObjectOf = Map.empty\<rparr>"

text \<open>\<^verbatim>\<open>func f() { for { switch { case 1: L: break } } }\<close>\<close>

definition lbs_break :: node where "lbs_break = Node 11 37 42 (BranchStmt BREAK None)"
definition lbs_labeled :: node where
  "lbs_labeled = Node 9 34 42 (LabeledStmt (Node 10 34 35 (Ident ''L'')) lbs_break)"
definition lbs_case :: node where
  "lbs_case = Node 7 26 42 (Other [Node 8 31 32 BasicLit, lbs_labeled])"
definition lbs_body :: node where "lbs_body = Node 6 24 44 (Other [lbs_case])"
definition lbs_switch :: node where "lbs_switch = Node 5 17 44 (SwitchStmt [lbs_body])"
definition lbs_block :: node where "lbs_block = Node 4 15 46 (Other [lbs_switch])"
definition lbs_for :: node where "lbs_for = Node 3 11 46 (ForStmt [lbs_block])"
definition lbs_fbody :: node where "lbs_fbody = Node 2 9 48 (Other [lbs_for])"
definition lbs_func :: node where
  "lbs_func = Node 1 0 48
     (FuncDecl None (Node 12 5 6 (Ident ''f''))
        (Node 13 0 8 (FuncType None (Some (Node 14 6 8 (FieldList []))) None))
        (Some lbs_fbody))"
definition lbs_file :: node where "lbs_file = Node 0 0 48 (File [lbs_func])"

definition lbs_info :: Info where
  "lbs_info =
     \<lparr>Defs = [10 \<mapsto> Object 1], Uses = Map.empty, Implicits = Map.empty,
      ObjectOf = [10 \<mapsto> Object 1]\<rparr>"

text \<open>\<^verbatim>\<open>for { switch { case 1: break } }\<close>\<close>

definition fsw_break :: node where "fsw_break = Node 7 23 28 (BranchStmt BREAK None)"
definition fsw_case :: node where
  "fsw_case = Node 5 15 28 (Other [Node 6 20 21 BasicLit, fsw_break])"
definition fsw_body :: node where "fsw_body = Node 4 13 30 (Other [fsw_case])"
definition fsw_switch :: node where "fsw_switch = Node 3 6 30 (SwitchStmt [fsw_body])"
definition fsw_block :: node where "fsw_block = Node 2 4 32 (Other [fsw_switch])"
definition fsw_for :: node where "fsw_for = Node 1 0 32 (ForStmt [fsw_block])"
definition fsw_file :: node where "fsw_file = Node 0 0 32 (File [fsw_for])"

text \<open>\<^verbatim>\<open>for { break X }\<close> and \<^verbatim>\<open>switch { case 1: break X }\<close>, the label \<^verbatim>\<open>X\<close> declared
  nowhere.\<close>

definition ux_break :: node where
  "ux_break = Node 3 6 13 (BranchStmt BREAK (Some (Node 4 12 13 (Ident ''X''))))"
definition ux_for :: node where "ux_for = Node 1 0 15 (ForStmt [Node 2 4 15 (Other [ux_break])])"
definition ux_for_file :: node where "ux_for_file = Node 0 0 15 (File [ux_for])"

definition uxs_break :: node where
  "uxs_break = Node 5 17 24 (BranchStmt BREAK (Some (Node 6 23 24 (Ident ''X''))))"
definition uxs_switch :: node where
  "uxs_switch = Node 1 0 26
     (SwitchStmt [Node 2 7 26 (Other [Node 3 9 24 (Other [Node 4 14 15 BasicLit, uxs_break])])])"
definition uxs_file :: node where "uxs_file = Node 0 0 26 (File [uxs_switch])"

text \<open>\<^verbatim>\<open>import "fmt"\<close> followed by \<^verbatim>\<open>fmt.Sprint\<close>\<close>

definition imp_fmt :: node where "imp_fmt = Node 6 14 17 (Ident ''fmt'')"
definition imp_sel :: node where
  "imp_sel = Node 5 14 24 (SelectorExpr imp_fmt (Node 7 18 24 (Ident ''Sprint'')))"
definition imp_stmt :: node where "imp_stmt = Node 4 14 24 (Other [imp_sel])"
definition imp_spec :: node where "imp_spec = Node 2 7 12 (ImportSpec None (Node 3 7 12 BasicLit))"
definition imp_file :: node where
  "imp_file = Node 0 0 24 (File [Node 1 0 12 (Other [imp_spec]), imp_stmt])"

definition imp_info :: Info where
  "imp_info =
     \<lparr>Defs = Map.empty, Uses = [6 \<mapsto> PkgName 1, 7 \<mapsto> Object 2],
      Implicits = [2 \<mapsto> PkgName 1],
      ObjectOf = [6 \<mapsto> PkgName 1, 7 \<mapsto> Object 2]\<rparr>"

text \<open>\<^verbatim>\<open>x+1+y\<close>\<close>

definition sum_x :: node where "sum_x = Node 3 0 1 (Ident ''x'')"
definition sum_inner :: node where "sum_inner = Node 2 0 3 (Other [sum_x, Node 4 2 3 BasicLit])"
definition sum_outer :: node where
  "sum_outer = Node 1 0 5 (Other [sum_inner, Node 5 4 5 (Ident ''y'')])"
definition sum_file :: node where "sum_file = Node 0 0 5 (File [sum_outer])"

text \<open>The conversions of a file of five bytes whose editor coordinates are its offsets.\<close>

definition sum_PositionPos :: "int \<Rightarrow> int option" where
  "sum_PositionPos p = (if 0 \<le> p \<and> p \<le> 5 then Some p else None)"

definition sum_PosRange :: "posRange \<Rightarrow> posRange option" where
  "sum_PosRange r = (if 0 \<le> fst r \<and> fst r \<le> snd r \<and> snd r \<le> 5 then Some r else None)"

section \<open>What a traversal adds\<close>

text \<open>
  A callback that answers \<open>d\<close> and adds \<open>A\<close> makes \<^verbatim>\<open>ast.Inspect\<close> add \<open>A\<close> of every node
  of \<open>walk d\<close>; each callback of the highlighter is of this form.
\<close>

lemma fold_union:
  "(\<And>c s. c \<in> set cs \<Longrightarrow> g c s = s \<union> B c) \<Longrightarrow> fold g cs s = s \<union> (\<Union>c \<in> set cs. B c)"
  by (induction cs arbitrary: s) auto

lemma Inspect_unfold:
  "f n s = (b, s') \<Longrightarrow> Inspect n f s = (if b then fold (\<lambda>c. Inspect c f) (children n) s' else s')"
  by (subst Inspect.simps) (simp split: bool.splits)

lemma Inspect_walk:
  assumes "\<And>m s. f m s = (d m, s \<union> A m)"
  shows "Inspect n f s = s \<union> (\<Union>m \<in> set (walk d n). A m)"
  using assms
proof (induction d n arbitrary: s rule: walk.induct)
  case (1 d n)
  note f = "1.prems"
  show ?case
  proof (cases "d n")
    case False
    then show ?thesis
      by (simp add: Inspect_unfold[OF f] walk.simps[of d n])
  next
    case True
    have "fold (\<lambda>c. Inspect c f) (children n) (s \<union> A n)
          = (s \<union> A n) \<union> (\<Union>c \<in> set (children n). \<Union>m \<in> set (walk d c). A m)"
      by (rule fold_union) (rule "1.IH"[OF True _ f])
    with True show ?thesis
      by (simp add: Inspect_unfold[OF f] walk.simps[of d n] Un_assoc)
  qed
qed

lemma Inspect_walk_ranges:
  assumes f: "\<And>m s. f m s = (d m, if c m then insert (rangeOf m) s else s)"
  shows "Inspect n f s = s \<union> rangeOf ` {m \<in> set (walk d n). c m}"
proof -
  have "\<And>m s. f m s = (d m, s \<union> (if c m then {rangeOf m} else {}))"
    by (simp add: f)
  from Inspect_walk[of f d "\<lambda>m. if c m then {rangeOf m} else {}", OF this]
  show ?thesis by auto
qed

lemma walk_leaf: "\<not> d n \<Longrightarrow> walk d n = [n]"
  by (subst walk.simps) simp




lemma returnVisit_eq:
  "returnVisit f hl idx n s = (funcDescend f n, s \<union> returnUnit hl idx n)"
  by (auto simp: returnVisit_def funcDescend_def returnUnit_def Let_def)

lemma loopBranchVisit_eq:
  "loopBranchVisit loop lbl info n s =
     (loopBreakDescend loop n, if exitBranch info lbl n \<and> \<not> isLoop n \<and> \<not> is_SwitchStmt (shape n) \<and> \<not> is_SelectStmt (shape n) then insert (rangeOf n) s else s)"
  by (auto simp: loopBranchVisit_def loopBreakDescend_def exitBranch_def labelMatches_def)

lemma exitBranch_kind:
  "exitBranch info lbl n \<Longrightarrow> \<not> isLoop n \<and> \<not> is_SwitchStmt (shape n) \<and> \<not> is_SelectStmt (shape n)"
  by (cases "shape n") (auto simp: exitBranch_def isLoop_def)

lemma loopBranchVisit_eq':
  "loopBranchVisit loop lbl info n s =
     (loopBreakDescend loop n, if exitBranch info lbl n then insert (rangeOf n) s else s)"
  using exitBranch_kind[of info lbl n] by (auto simp: loopBranchVisit_eq)

lemma continueBranch_kind: "continueBranch n \<Longrightarrow> \<not> isLoop n"
  by (cases "shape n") (auto simp: continueBranch_def isLoop_def)

lemma loopContinueVisit_eq:
  "loopContinueVisit loop n s =
     (loopContinueDescend loop n, if continueBranch n then insert (rangeOf n) s else s)"
  using continueBranch_kind[of n]
  by (auto simp: loopContinueVisit_def loopContinueDescend_def continueBranch_def)

lemma labeledBranchVisit_eq:
  "labeledBranchVisit lbl info n s =
     (everywhere n, if labeledBranch info lbl n then insert (rangeOf n) s else s)"
  by (auto simp: labeledBranchVisit_def everywhere_def labeledBranch_def labelMatches_def)

lemma isBreak_kind:
  "isBreak n \<Longrightarrow> \<not> isLoop n \<and> \<not> is_SwitchStmt (shape n) \<and> \<not> is_SelectStmt (shape n)"
  by (cases "shape n") (auto simp: isBreak_def isLoop_def)

lemma switchBreakVisit_eq:
  "switchBreakVisit sw lbl info n s =
     (switchDescend sw n, if isBreak n \<and> exitBranch info lbl n then insert (rangeOf n) s else s)"
  using isBreak_kind[of n]
  by (auto simp: switchBreakVisit_def switchDescend_def isBreak_def exitBranch_def labelMatches_def)

lemma labeledBreakVisit_eq:
  "labeledBreakVisit lbl info n s =
     (everywhere n, if isBreak n \<and> labeledBranch info lbl n then insert (rangeOf n) s else s)"
  by (auto simp: labeledBreakVisit_def everywhere_def labeledBranch_def labelMatches_def isBreak_def)

lemma identVisit_eq:
  "identVisit ident info obj n s = (everywhere n, s \<union> identUnit ident info obj n)"
  by (cases "shape n")
     (auto simp: identVisit_def identUnit_def everywhere_def split: option.splits)

lemma loop_result:
  assumes "findLoop (gopLabelFor path) path = Some (loop, lbl)"
  shows "gopHighlightLoopControlFlow path info result =
           result \<union> {(Pos loop, Pos loop + 3)}
           \<union> rangeOf ` {b \<in> set (walk (loopBreakDescend loop) loop). exitBranch info lbl b}
           \<union> rangeOf ` {b \<in> set (walk (loopContinueDescend loop) loop). continueBranch b}
           \<union> (if lbl = None then {}
               else rangeOf ` {b \<in> set (walk everywhere loop). labeledBranch info lbl b})"
  unfolding gopHighlightLoopControlFlow_def assms
  by (simp add: Let_def
        Inspect_walk_ranges[of _ _ _, OF loopBranchVisit_eq']
        Inspect_walk_ranges[of _ _ _, OF loopContinueVisit_eq]
        Inspect_walk_ranges[of _ _ _, OF labeledBranchVisit_eq] Un_assoc)

lemma switch_result:
  assumes "findSwitch (gopLabelFor path) path = Some (sw, lbl)"
  shows "gopHighlightSwitchFlow path info result =
           result \<union> {(Pos sw, Pos sw + 6)}
           \<union> rangeOf ` {b \<in> set (walk (switchDescend sw) sw). isBreak b \<and> exitBranch info lbl b}
           \<union> (if lbl = None then {}
               else rangeOf ` {b \<in> set (walk everywhere sw). isBreak b \<and> labeledBranch info lbl b})"
  unfolding gopHighlightSwitchFlow_def assms
  by (simp add: Let_def
        Inspect_walk_ranges[of _ _ _, OF switchBreakVisit_eq]
        Inspect_walk_ranges[of _ _ _, OF labeledBreakVisit_eq] Un_assoc)

lemma func_result:
  assumes "funcWalk p0 None (p0 # rest) walkInit = Some w"
    and "enclosingFunc w = Some f"
    and "\<not> unrelatedCursor p0 w"
  shows "gopHighlightFuncControlFlow nap (p0 # rest) result =
           result \<union> resultField (nap (resultNodes w) (Pos p0)) w
           \<union> (if highlightAllReturnsAndFunc p0 w f then {(Pos f, Pos f + 4)} else {})
           \<union> (\<Union>r \<in> set (walk (funcDescend f) f).
                 returnUnit (highlightAllReturnsAndFunc p0 w f) (nap (resultNodes w) (Pos p0)) r)"
  unfolding gopHighlightFuncControlFlow_def
  using assms
  by (simp add: Let_def Inspect_walk[of _ _ _, OF returnVisit_eq] Un_assoc del: funcWalk.simps)

lemma ident_result:
  "gopHighlightIdentifier ident file info result =
     result \<union> (\<Union>n \<in> set (walk everywhere file). identUnit ident info (ObjectOf info (nid ident)) n)"
  unfolding gopHighlightIdentifier_def
  by (simp add: Inspect_walk[of _ _ _, OF identVisit_eq])

text \<open>Evaluation on the example files: a comprehension over the nodes of a traversal is
  the set of a filtered list.\<close>

lemma image_filter_set: "f ` {x \<in> set xs. P x} = set (map f (filter P xs))"
  by auto

lemmas ret2_defs = ret2_x_def ret2_y_def ret2_ret1_def ret2_ret2_def ret2_body_def ret2_type_def
  ret2_func_def ret2_file_def ret2_info_def

lemmas conv_defs = conv_type_def conv_paren_def conv_call_def conv_ret_def conv_body_def
  conv_func_def conv_file_def

lemmas kv_defs = kv_v_def kv_kv_def kv_lit_def kv_ret_def kv_body_def kv_func_def kv_file_def

lemmas nest_defs = nest_continue_def nest_inner_def nest_block_def nest_outer_def
  nest_labeled_def nest_body_def nest_func_def nest_file_def nest_info_def

lemmas lsw_defs = lsw_break_def lsw_block_def lsw_for_def lsw_case_def lsw_body_def
  lsw_switch_def lsw_labeled_def lsw_fbody_def lsw_func_def lsw_file_def lsw_info_def

lemmas lbs_defs = lbs_break_def lbs_labeled_def lbs_case_def lbs_body_def lbs_switch_def
  lbs_block_def lbs_for_def lbs_fbody_def lbs_func_def lbs_file_def lbs_info_def

lemmas fsw_defs = fsw_break_def fsw_case_def fsw_body_def fsw_switch_def fsw_block_def
  fsw_for_def fsw_file_def

lemmas ux_defs = ux_break_def ux_for_def ux_for_file_def uxs_break_def uxs_switch_def
  uxs_file_def no_info_def

lemmas imp_defs = imp_fmt_def imp_sel_def imp_stmt_def imp_spec_def imp_file_def imp_info_def

lemmas sum_defs = sum_x_def sum_inner_def sum_outer_def sum_file_def sum_PositionPos_def
  sum_PosRange_def

lemmas func_eval = walkInit_def unrelatedCursor_def highlightAllReturnsAndFunc_def
  resultNodes_def resultField_def funcTypeResults_def fieldListList_def returnVisit_def
  rangeOf_def nodeAtPos_def children_def opt_list_def Let_def

lemma pathFrom_nonempty: "pathFrom n s e \<noteq> []"
  by (subst pathFrom.simps) (simp split: option.splits)

section \<open>Function exits under highlight-all\<close>

text \<open>
  Claim C1. The claim says that with the cursor on a function type (as on the keyword
  \<^verbatim>\<open>return\<close> or on the enclosing function) every return statement of the enclosing function
  is highlighted in full, next to the four characters \<^verbatim>\<open>func\<close>. The callback of the
  traversal first takes the whole statement under highlight-all and then, without a test
  of highlight-all, replaces it by the result at the index. In
  \<^verbatim>\<open>func g() T { return (func())(nil) }\<close> with the cursor on the function type of the
  conversion, highlight-all holds, the index is 0, and the return statement \<open>(13, 33)\<close> is
  not highlighted: only its result \<open>(20, 33)\<close> is, with the \<^verbatim>\<open>func\<close> span \<open>(0, 4)\<close> and the
  result field \<open>(9, 10)\<close>.
\<close>

theorem C1_function_type_in_return:
  "is_FuncType (shape conv_type)
   \<and> funcWalk conv_type None
        [conv_type, conv_paren, conv_call, conv_ret, conv_body, conv_func, conv_file] walkInit
      = Some \<lparr>enclosingFunc = Some conv_func, returnStmt = Some conv_ret,
              resultsList = funcTypeResults conv_func, inReturnList = True\<rparr>
   \<and> highlightAllReturnsAndFunc conv_type
        \<lparr>enclosingFunc = Some conv_func, returnStmt = Some conv_ret,
         resultsList = funcTypeResults conv_func, inReturnList = True\<rparr> conv_func
   \<and> conv_ret \<in> set (walk (funcDescend conv_func) conv_func)
   \<and> is_ReturnStmt (shape conv_ret)
   \<and> rangeOf conv_ret = (13, 33)
   \<and> gopHighlightPath nodeAtPos
        [conv_type, conv_paren, conv_call, conv_ret, conv_body, conv_func, conv_file]
        conv_file no_info
      = Inr {(0, 4), (9, 10), (20, 33)}
   \<and> rangeOf conv_ret \<notin> gopHighlightFuncControlFlow nodeAtPos
        [conv_type, conv_paren, conv_call, conv_ret, conv_body, conv_func, conv_file] {}"
proof -
  have a: "is_FuncType (shape conv_type)" by (simp add: conv_defs)
  have b: "funcWalk conv_type None
        [conv_type, conv_paren, conv_call, conv_ret, conv_body, conv_func, conv_file] walkInit
      = Some \<lparr>enclosingFunc = Some conv_func, returnStmt = Some conv_ret,
              resultsList = funcTypeResults conv_func, inReturnList = True\<rparr>"
    by (simp add: conv_defs walkInit_def)
  have h: "highlightAllReturnsAndFunc conv_type
        \<lparr>enclosingFunc = Some conv_func, returnStmt = Some conv_ret,
         resultsList = funcTypeResults conv_func, inReturnList = True\<rparr> conv_func"
    by (simp add: highlightAllReturnsAndFunc_def a)
  have c: "conv_ret \<in> set (walk (funcDescend conv_func) conv_func)"
    by (simp add: conv_defs walk.simps funcDescend_def children_def opt_list_def)
  have d: "is_ReturnStmt (shape conv_ret)" "rangeOf conv_ret = (13, 33)"
    by (simp_all add: conv_defs rangeOf_def)
  have e: "gopHighlightFuncControlFlow nodeAtPos
        [conv_type, conv_paren, conv_call, conv_ret, conv_body, conv_func, conv_file] {}
      = {(0, 4), (9, 10), (20, 33)}"
    by (simp add: gopHighlightFuncControlFlow_def conv_defs func_eval Inspect.simps
          insert_commute)
  have g: "gopHighlightPath nodeAtPos
        [conv_type, conv_paren, conv_call, conv_ret, conv_body, conv_func, conv_file]
        conv_file no_info
      = Inr (gopHighlightFuncControlFlow nodeAtPos
        [conv_type, conv_paren, conv_call, conv_ret, conv_body, conv_func, conv_file] {})"
    by (simp add: gopHighlightPath_def conv_type_def)
  from a b h c d e g show ?thesis by simp
qed

section \<open>Occurrences of an identifier\<close>

lemma identUnit_split:
  "identUnit ident info (ObjectOf info (nid ident)) n =
     (if sameIdentifier ident info n then {rangeOf n} else {})
     \<union> (if importOf info (ObjectOf info (nid ident)) n then {importRange n} else {})"
  by (cases "shape n") (auto simp: identUnit_def sameIdentifier_def importOf_def importRange_def)

lemma ident_result_sets:
  "gopHighlightIdentifier ident root info result =
     result \<union> rangeOf ` {m \<in> set (walk everywhere root). sameIdentifier ident info m}
     \<union> importRange ` {n \<in> set (walk everywhere root). importOf info (ObjectOf info (nid ident)) n}"
  unfolding ident_result identUnit_split by (auto split: if_splits)

text \<open>
  Claim C2, as amended. With the cursor on an identifier bound to the object \<open>O\<close> (which
  may be the absence of a binding), the result is what function-exit highlighting gives for
  the path together with what identifier highlighting gives. Identifier highlighting gives
  the range of every identifier of the file with the name of the cursor's identifier and
  the object \<open>O\<close>, the range of every import declaration whose package name is \<open>O\<close> (its
  alias, or the whole declaration), and nothing else. Function-exit highlighting can add
  ranges of other nodes.
\<close>

theorem C2_identifier_occurrences:
  assumes "is_Ident (shape ident)"
  shows
    "gopHighlightPath indexAt (ident # rest) root info =
       Inr (gopHighlightFuncControlFlow indexAt (ident # rest) {}
            \<union> gopHighlightIdentifier ident root info {})
     \<and> gopHighlightIdentifier ident root info {} =
         rangeOf ` {m \<in> set (walk everywhere root). sameIdentifier ident info m}
         \<union> importRange ` {n \<in> set (walk everywhere root).
                              importOf info (ObjectOf info (nid ident)) n}"
proof
  have "\<not> is_BasicLit (shape ident)" "\<not> is_ReturnStmt (shape ident)"
    "\<not> is_FuncDecl (shape ident)" "\<not> is_FuncType (shape ident)"
    using assms by (cases "shape ident"; simp)+
  then show "gopHighlightPath indexAt (ident # rest) root info =
       Inr (gopHighlightFuncControlFlow indexAt (ident # rest) {}
            \<union> gopHighlightIdentifier ident root info {})"
    using assms
    by (simp add: gopHighlightPath_def
          ident_result[of ident root info "gopHighlightFuncControlFlow indexAt (ident # rest) {}"]
          ident_result[of ident root info "{}"])
next
  show "gopHighlightIdentifier ident root info {} =
         rangeOf ` {m \<in> set (walk everywhere root). sameIdentifier ident info m}
         \<union> importRange ` {n \<in> set (walk everywhere root).
                              importOf info (ObjectOf info (nid ident)) n}"
    by (simp add: ident_result_sets)
qed

text \<open>The cursor on \<^verbatim>\<open>x\<close> in \<^verbatim>\<open>func f() T { return x; return y }\<close>, and the cursor on
  \<^verbatim>\<open>fmt\<close> in a file that imports the package.\<close>

theorem C2_identifier_occurrences_witness:
  "is_Ident (shape ret2_x)
   \<and> gopHighlightPath nodeAtPos [ret2_x, ret2_ret1, ret2_body, ret2_func, ret2_file]
        ret2_file ret2_info
     = Inr (gopHighlightFuncControlFlow nodeAtPos
              [ret2_x, ret2_ret1, ret2_body, ret2_func, ret2_file] {}
            \<union> gopHighlightIdentifier ret2_x ret2_file ret2_info {})
   \<and> gopHighlightIdentifier ret2_x ret2_file ret2_info {} = {(20, 21)}
   \<and> is_Ident (shape imp_fmt)
   \<and> gopHighlightFuncControlFlow nodeAtPos [imp_fmt, imp_sel, imp_stmt, imp_file] {} = {}
   \<and> gopHighlightPath nodeAtPos [imp_fmt, imp_sel, imp_stmt, imp_file] imp_file imp_info
     = Inr {(7, 12), (14, 17)}"
proof -
  have i: "is_Ident (shape ret2_x)" by (simp add: ret2_defs)
  note t = C2_identifier_occurrences[where indexAt = nodeAtPos and root = ret2_file
      and info = ret2_info and rest = "[ret2_ret1, ret2_body, ret2_func, ret2_file]", OF i]
  have a: "rangeOf ` {m \<in> set (walk everywhere ret2_file). sameIdentifier ret2_x ret2_info m}
           = {(20, 21)}"
    by (subst image_filter_set)
       (simp add: ret2_defs walk.simps everywhere_def children_def opt_list_def rangeOf_def
          sameIdentifier_def)
  have b: "importRange ` {n \<in> set (walk everywhere ret2_file).
                           importOf ret2_info (ObjectOf ret2_info (nid ret2_x)) n} = {}"
    by (subst image_filter_set)
       (simp add: ret2_defs walk.simps everywhere_def children_def opt_list_def importOf_def)
  have j: "is_Ident (shape imp_fmt)" by (simp add: imp_defs)
  note u = C2_identifier_occurrences[where indexAt = nodeAtPos and root = imp_file
      and info = imp_info and rest = "[imp_sel, imp_stmt, imp_file]", OF j]
  have c: "rangeOf ` {m \<in> set (walk everywhere imp_file). sameIdentifier imp_fmt imp_info m}
           = {(14, 17)}"
    by (subst image_filter_set)
       (simp add: imp_defs walk.simps everywhere_def children_def opt_list_def rangeOf_def
          sameIdentifier_def)
  have d: "importRange ` {n \<in> set (walk everywhere imp_file).
                           importOf imp_info (ObjectOf imp_info (nid imp_fmt)) n} = {(7, 12)}"
    by (subst image_filter_set)
       (simp add: imp_defs walk.simps everywhere_def children_def opt_list_def importOf_def
          importRange_def rangeOf_def GopImportedPkgName_def)
  have e: "gopHighlightFuncControlFlow nodeAtPos [imp_fmt, imp_sel, imp_stmt, imp_file] {} = {}"
    by (simp add: gopHighlightFuncControlFlow_def imp_defs walkInit_def)
  have r: "gopHighlightPath nodeAtPos [imp_fmt, imp_sel, imp_stmt, imp_file] imp_file imp_info
     = Inr {(7, 12), (14, 17)}"
    using u c d e by (simp add: insert_commute)
  from t a b i j e r show ?thesis by simp
qed

text \<open>
  The claim as it was stated fails on the same input: the result holds the range of \<^verbatim>\<open>y\<close>,
  an identifier bound to another object, because it is the first result of the second
  return statement.
\<close>

theorem C2_identifier_occurrences_counterexample:
  "is_Ident (shape ret2_x) \<and> is_Ident (shape ret2_y)
   \<and> ret2_y \<in> set (walk everywhere ret2_file)
   \<and> ObjectOf ret2_info (nid ret2_y) \<noteq> ObjectOf ret2_info (nid ret2_x)
   \<and> rangeOf ret2_y = (30, 31)
   \<and> gopHighlightPath nodeAtPos [ret2_x, ret2_ret1, ret2_body, ret2_func, ret2_file]
        ret2_file ret2_info
     = Inr {(9, 10), (20, 21), (30, 31)}"
proof -
  have a: "ret2_y \<in> set (walk everywhere ret2_file)"
    by (simp add: ret2_defs walk.simps everywhere_def children_def opt_list_def)
  have b: "gopHighlightPath nodeAtPos [ret2_x, ret2_ret1, ret2_body, ret2_func, ret2_file]
        ret2_file ret2_info
     = Inr {(9, 10), (20, 21), (30, 31)}"
    by (simp add: gopHighlightPath_def gopHighlightFuncControlFlow_def
          gopHighlightIdentifier_def identVisit_def ret2_defs func_eval Inspect.simps
          insert_commute)
  from a b show ?thesis by (simp add: ret2_defs rangeOf_def)
qed

section \<open>Loop exits\<close>

text \<open>
  Claim C3. The claim says that a \<^verbatim>\<open>continue\<close> found by the traversal of the loop is
  highlighted only if it has no label or its label resolves to the binding of the loop's
  label. The second traversal of \<^verbatim>\<open>gopHighlightLoopControlFlow\<close> highlights every
  \<^verbatim>\<open>continue\<close> it reaches and never looks at the label, unlike the first traversal. In
  \<^verbatim>\<open>func f() { Outer: for { for { continue Outer } } }\<close> with the cursor on the inner \<^verbatim>\<open>for\<close>, the inner
  loop has no label, the label of \<^verbatim>\<open>continue Outer\<close> is bound to the label of the outer loop,
  and the statement is highlighted all the same.
\<close>

theorem C3_continue_with_other_label:
  "findLoop (gopLabelFor [nest_inner, nest_block, nest_outer, nest_labeled, nest_body, nest_func, nest_file])
       [nest_inner, nest_block, nest_outer, nest_labeled, nest_body, nest_func, nest_file] = Some (nest_inner, None)
   \<and> nest_continue \<in> set (walk (loopContinueDescend nest_inner) nest_inner)
   \<and> continueBranch nest_continue
   \<and> BLabel (shape nest_continue) \<noteq> None
   \<and> \<not> labelMatches nest_info None nest_continue
   \<and> rangeOf nest_continue = (30, 44)
   \<and> gopHighlightLoopControlFlow [nest_inner, nest_block, nest_outer, nest_labeled, nest_body, nest_func, nest_file]
        nest_info {} = {(24, 27), (30, 44)}"
proof -
  have a: "findLoop (gopLabelFor [nest_inner, nest_block, nest_outer, nest_labeled, nest_body, nest_func, nest_file])
       [nest_inner, nest_block, nest_outer, nest_labeled, nest_body, nest_func, nest_file] = Some (nest_inner, None)"
    by (simp add: nest_defs gopLabelFor_def isLoop_def)
  have b: "nest_continue \<in> set (walk (loopContinueDescend nest_inner) nest_inner)"
    by (simp add: nest_defs walk.simps loopContinueDescend_def isLoop_def children_def
          opt_list_def)
  have c: "continueBranch nest_continue" "BLabel (shape nest_continue) \<noteq> None"
    "\<not> labelMatches nest_info None nest_continue" "rangeOf nest_continue = (30, 44)"
    by (simp_all add: nest_defs continueBranch_def labelMatches_def UsesOf_def DefsOf_def
          rangeOf_def)
  have d: "gopHighlightLoopControlFlow
        [nest_inner, nest_block, nest_outer, nest_labeled, nest_body, nest_func, nest_file] nest_info {}
        = {(24, 27), (30, 44)}"
    by (simp add: gopHighlightLoopControlFlow_def gopLabelFor_def Let_def nest_defs
          Inspect.simps loopBranchVisit_def loopContinueVisit_def isLoop_def UsesOf_def
          DefsOf_def rangeOf_def children_def opt_list_def insert_commute)
  from a b c d show ?thesis by simp
qed

section \<open>Switch exits\<close>

text \<open>
  Claim C4, as amended. Switch highlighting adds the six characters \<^verbatim>\<open>switch\<close> at the
  start of the switch and ranges of \<^verbatim>\<open>break\<close> statements only. Its first traversal does
  not go below a nested loop, select or switch, and highlights the \<^verbatim>\<open>break\<close> statements it
  reaches that have no label or whose label resolves to the binding of the switch's label.
  When the switch carries a label, a second traversal of the whole statement, nested
  loops, selects and switches included, highlights every \<^verbatim>\<open>break\<close> whose label resolves to
  that binding.
\<close>

theorem C4_switch_exits:
  assumes "findSwitch (gopLabelFor path) path = Some (sw, lbl)"
  shows
    "gopHighlightSwitchFlow path info result =
       result \<union> {(Pos sw, Pos sw + 6)}
       \<union> rangeOf ` {b \<in> set (walk (switchDescend sw) sw). isBreak b \<and> exitBranch info lbl b}
       \<union> (if lbl = None then {}
           else rangeOf ` {b \<in> set (walk everywhere sw). isBreak b \<and> labeledBranch info lbl b})
     \<and> (\<forall>n. isLoop n \<or> is_SelectStmt (shape n) \<or> (is_SwitchStmt (shape n) \<and> nid n \<noteq> nid sw)
            \<longrightarrow> walk (switchDescend sw) n = [n])"
proof (intro conjI allI impI)
  show "gopHighlightSwitchFlow path info result =
       result \<union> {(Pos sw, Pos sw + 6)}
       \<union> rangeOf ` {b \<in> set (walk (switchDescend sw) sw). isBreak b \<and> exitBranch info lbl b}
       \<union> (if lbl = None then {}
           else rangeOf ` {b \<in> set (walk everywhere sw). isBreak b \<and> labeledBranch info lbl b})"
    by (rule switch_result[OF assms])
next
  fix n
  assume "isLoop n \<or> is_SelectStmt (shape n) \<or> (is_SwitchStmt (shape n) \<and> nid n \<noteq> nid sw)"
  then have "\<not> switchDescend sw n"
    by (cases "shape n") (auto simp: switchDescend_def isLoop_def)
  then show "walk (switchDescend sw) n = [n]"
    by (rule walk_leaf)
qed

text \<open>The cursor on \<^verbatim>\<open>switch\<close> in \<^verbatim>\<open>for { switch { case 1: break } }\<close>.\<close>

theorem C4_switch_exits_witness:
  "findSwitch (gopLabelFor [fsw_switch, fsw_block, fsw_for, fsw_file])
      [fsw_switch, fsw_block, fsw_for, fsw_file] = Some (fsw_switch, None)
   \<and> gopHighlightSwitchFlow [fsw_switch, fsw_block, fsw_for, fsw_file] no_info {}
      = {(6, 12), (23, 28)}
   \<and> walk (switchDescend fsw_switch) fsw_for = [fsw_for]"
proof -
  have a: "findSwitch (gopLabelFor [fsw_switch, fsw_block, fsw_for, fsw_file])
      [fsw_switch, fsw_block, fsw_for, fsw_file] = Some (fsw_switch, None)"
    by (simp add: fsw_defs gopLabelFor_def)
  note t = C4_switch_exits[OF a, where info = no_info and result = "{}"]
  have l: "isLoop fsw_for" by (simp add: fsw_defs isLoop_def)
  have p: "Pos fsw_switch = 6" by (simp add: fsw_defs)
  have b: "rangeOf ` {b \<in> set (walk (switchDescend fsw_switch) fsw_switch).
                       isBreak b \<and> exitBranch no_info None b} = {(23, 28)}"
    by (subst image_filter_set)
       (simp add: fsw_defs walk.simps switchDescend_def isLoop_def children_def opt_list_def
          isBreak_def exitBranch_def rangeOf_def)
  from t[THEN conjunct1] b p
  have r: "gopHighlightSwitchFlow [fsw_switch, fsw_block, fsw_for, fsw_file] no_info {}
      = {(6, 12), (23, 28)}"
    by (simp add: insert_commute)
  from t[THEN conjunct2] l have w: "walk (switchDescend fsw_switch) fsw_for = [fsw_for]"
    by blast
  from a r w show ?thesis by simp
qed

text \<open>
  The claim as it was stated fails on \<^verbatim>\<open>func f() { L: switch { case 1: for { break L } } }\<close> with the
  cursor on \<^verbatim>\<open>switch\<close>: the \<^verbatim>\<open>break L\<close> lies below the nested loop, where the first traversal
  does not go, and it is highlighted.
\<close>

theorem C4_switch_exits_counterexample:
  "findSwitch (gopLabelFor [lsw_switch, lsw_labeled, lsw_fbody, lsw_func, lsw_file])
      [lsw_switch, lsw_labeled, lsw_fbody, lsw_func, lsw_file] = Some (lsw_switch, Some (Node 2 11 12 (Ident ''L'')))
   \<and> isLoop lsw_for \<and> nid lsw_for \<noteq> nid lsw_switch
   \<and> lsw_for \<in> set (walk (switchDescend lsw_switch) lsw_switch)
   \<and> lsw_break \<in> set (walk everywhere lsw_block) \<and> children lsw_for = [lsw_block]
   \<and> isBreak lsw_break \<and> BLabel (shape lsw_break) \<noteq> None
   \<and> rangeOf lsw_break = (37, 44)
   \<and> (37, 44) \<notin> rangeOf ` set (walk (switchDescend lsw_switch) lsw_switch)
   \<and> gopHighlightSwitchFlow [lsw_switch, lsw_labeled, lsw_fbody, lsw_func, lsw_file] lsw_info {}
      = {(14, 20), (37, 44)}"
proof -
  have a: "findSwitch (gopLabelFor [lsw_switch, lsw_labeled, lsw_fbody, lsw_func, lsw_file])
      [lsw_switch, lsw_labeled, lsw_fbody, lsw_func, lsw_file] = Some (lsw_switch, Some (Node 2 11 12 (Ident ''L'')))"
    by (simp add: lsw_defs gopLabelFor_def)
  have b: "isLoop lsw_for" "nid lsw_for \<noteq> nid lsw_switch" "children lsw_for = [lsw_block]"
    "isBreak lsw_break" "BLabel (shape lsw_break) \<noteq> None" "rangeOf lsw_break = (37, 44)"
    by (simp_all add: lsw_defs isLoop_def children_def isBreak_def rangeOf_def)
  have c: "lsw_for \<in> set (walk (switchDescend lsw_switch) lsw_switch)"
    "(37, 44) \<notin> rangeOf ` set (walk (switchDescend lsw_switch) lsw_switch)"
    by (simp_all add: lsw_defs walk.simps switchDescend_def isLoop_def children_def opt_list_def
          rangeOf_def)
  have d: "lsw_break \<in> set (walk everywhere lsw_block)"
    by (simp add: lsw_defs walk.simps everywhere_def children_def opt_list_def)
  have e: "gopHighlightSwitchFlow [lsw_switch, lsw_labeled, lsw_fbody, lsw_func, lsw_file] lsw_info {}
      = {(14, 20), (37, 44)}"
    by (simp add: gopHighlightSwitchFlow_def gopLabelFor_def Let_def lsw_defs Inspect.simps
          switchBreakVisit_def labeledBreakVisit_def isLoop_def UsesOf_def DefsOf_def
          rangeOf_def children_def opt_list_def insert_commute)
  from a b c d e show ?thesis by simp
qed

section \<open>An unlabeled break\<close>

text \<open>
  Claim C5. The claim says that a \<^verbatim>\<open>break\<close> without a label highlights the first loop or
  switch of its path. In \<^verbatim>\<open>func f() { for { switch { case 1: L: break } } }\<close> with the
  cursor on \<^verbatim>\<open>break\<close>, the first of them is the switch and the dispatch calls switch
  highlighting with the whole path; there \<^verbatim>\<open>gopLabelFor\<close> takes the label \<^verbatim>\<open>L\<close> that stands
  before the \<^verbatim>\<open>break\<close> for the label the switch must carry, no switch of the path carries
  it, and nothing is highlighted. With the cursor on the switch itself the keyword
  \<open>(17, 23)\<close> and the \<^verbatim>\<open>break\<close> \<open>(37, 42)\<close> are highlighted.
\<close>

theorem C5_break_under_a_label:
  "is_BranchStmt (shape lbs_break) \<and> Tok (shape lbs_break) = BREAK
   \<and> BLabel (shape lbs_break) = None
   \<and> firstEnclosing
        [lbs_break, lbs_labeled, lbs_case, lbs_body, lbs_switch, lbs_block, lbs_for,
         lbs_fbody, lbs_func, lbs_file]
      = Some lbs_switch
   \<and> is_SwitchStmt (shape lbs_switch)
   \<and> gopLabelFor
        [lbs_break, lbs_labeled, lbs_case, lbs_body, lbs_switch, lbs_block, lbs_for,
         lbs_fbody, lbs_func, lbs_file]
      = Some (Node 10 34 35 (Ident ''L''))
   \<and> findSwitch (Some (Node 10 34 35 (Ident ''L'')))
        [lbs_break, lbs_labeled, lbs_case, lbs_body, lbs_switch, lbs_block, lbs_for,
         lbs_fbody, lbs_func, lbs_file]
      = None
   \<and> gopHighlightPath nodeAtPos
        [lbs_break, lbs_labeled, lbs_case, lbs_body, lbs_switch, lbs_block, lbs_for,
         lbs_fbody, lbs_func, lbs_file]
        lbs_file lbs_info
      = Inr {}
   \<and> gopHighlightSwitchFlow [lbs_switch, lbs_block, lbs_for, lbs_fbody, lbs_func, lbs_file]
        lbs_info {}
      = {(17, 23), (37, 42)}"
proof -
  let ?path = "[lbs_break, lbs_labeled, lbs_case, lbs_body, lbs_switch, lbs_block, lbs_for,
         lbs_fbody, lbs_func, lbs_file]"
  have b: "is_BranchStmt (shape lbs_break)" "Tok (shape lbs_break) = BREAK"
    "BLabel (shape lbs_break) = None" "is_SwitchStmt (shape lbs_switch)"
    by (simp_all add: lbs_defs)
  have f: "firstEnclosing ?path = Some lbs_switch"
    by (simp add: firstEnclosing_def lbs_defs isLoop_def)
  have g: "gopLabelFor ?path = Some (Node 10 34 35 (Ident ''L''))"
    by (simp add: gopLabelFor_def lbs_defs)
  have s: "findSwitch (Some (Node 10 34 35 (Ident ''L''))) ?path = None"
    by (simp add: lbs_defs gopLabelFor_def)
  have r: "gopHighlightPath nodeAtPos ?path lbs_file lbs_info = Inr {}"
    by (simp add: gopHighlightPath_def gopHighlightUnlabeledBreakFlow_def
          gopHighlightSwitchFlow_def gopLabelFor_def lbs_defs isLoop_def)
  have e: "gopHighlightSwitchFlow [lbs_switch, lbs_block, lbs_for, lbs_fbody, lbs_func, lbs_file]
        lbs_info {}
      = {(17, 23), (37, 42)}"
    by (simp add: gopHighlightSwitchFlow_def gopLabelFor_def Let_def lbs_defs
          Inspect.simps switchBreakVisit_def isLoop_def UsesOf_def DefsOf_def rangeOf_def
          children_def opt_list_def insert_commute)
  from b f g s r e show ?thesis by simp
qed

section \<open>A labeled break or continue\<close>

lemma rename_header [simp]:
  "nid (rename g n) = nid n" "Pos (rename g n) = Pos n" "End (rename g n) = End n"
  by (cases n; simp)+

lemma rename_shape: "shape (rename g n) = renameShape g (map_shape (rename g) (shape n))"
  by (cases n) simp

lemma renameShape_cases:
  "renameShape g s = (if is_Ident s then Ident (g (Name s)) else s)"
  by (cases s) simp_all

lemma rename_rangeOf [simp]: "rangeOf (rename g n) = rangeOf n"
  by (simp add: rangeOf_def)

lemma rename_discs [simp]:
  "is_BranchStmt (shape (rename g n)) = is_BranchStmt (shape n)"
  "is_LabeledStmt (shape (rename g n)) = is_LabeledStmt (shape n)"
  "is_ForStmt (shape (rename g n)) = is_ForStmt (shape n)"
  "is_RangeStmt (shape (rename g n)) = is_RangeStmt (shape n)"
  "is_SwitchStmt (shape (rename g n)) = is_SwitchStmt (shape n)"
  "is_SelectStmt (shape (rename g n)) = is_SelectStmt (shape n)"
  "is_BasicLit (shape (rename g n)) = is_BasicLit (shape n)"
  "is_ReturnStmt (shape (rename g n)) = is_ReturnStmt (shape n)"
  "is_FuncDecl (shape (rename g n)) = is_FuncDecl (shape n)"
  "is_FuncType (shape (rename g n)) = is_FuncType (shape n)"
  "is_Ident (shape (rename g n)) = is_Ident (shape n)"
  by (cases "shape n"; simp add: rename_shape)+

lemma rename_isLoop [simp]: "isLoop (rename g n) = isLoop n"
  by (simp add: isLoop_def)

lemma rename_sels:
  "is_BranchStmt (shape n) \<Longrightarrow> Tok (shape (rename g n)) = Tok (shape n)"
  "is_BranchStmt (shape n) \<Longrightarrow> BLabel (shape (rename g n)) = map_option (rename g) (BLabel (shape n))"
  "is_LabeledStmt (shape n) \<Longrightarrow> Label (shape (rename g n)) = rename g (Label (shape n))"
  "is_LabeledStmt (shape n) \<Longrightarrow> Stmt (shape (rename g n)) = rename g (Stmt (shape n))"
  by (cases "shape n"; simp add: rename_shape)+

lemma rename_children: "children (rename g n) = map (rename g) (children n)"
  by (cases "shape n") (simp_all add: children_def rename_shape opt_list_def split: option.splits)

lemma rename_UsesOf [simp]: "UsesOf info (map_option (rename g) l) = UsesOf info l"
  by (cases l) (simp_all add: UsesOf_def)

lemma rename_DefsOf [simp]: "DefsOf info (map_option (rename g) l) = DefsOf info l"
  by (cases l) (simp_all add: DefsOf_def)

lemma fold_map_cong:
  "(\<And>c s. c \<in> set cs \<Longrightarrow> h (r c) s = h' c s) \<Longrightarrow> fold h (map r cs) s = fold h' cs s"
  by (induction cs arbitrary: s) simp_all

lemma Inspect_rename:
  assumes "\<And>m s. f (rename g m) s = f' m s"
  shows "Inspect (rename g n) f s = Inspect n f' s"
  using assms
proof (induction n f' s rule: Inspect.induct)
  case (1 n f' s)
  obtain b s' where fs: "f' n s = (b, s')" by (cases "f' n s")
  then have fr: "f (rename g n) s = (b, s')" by (simp add: "1.prems")
  show ?case
  proof (cases b)
    case False
    with fs fr show ?thesis by (simp add: Inspect_unfold)
  next
    case True
    have "fold (\<lambda>c. Inspect c f) (map (rename g) (children n)) s'
          = fold (\<lambda>c. Inspect c f') (children n) s'"
    proof (rule fold_map_cong)
      fix c acc
      assume c: "c \<in> set (children n)"
      from True have bt: "b = True" by simp
      show "Inspect (rename g c) f acc = Inspect c f' acc"
        by (rule "1.IH"[OF fs[symmetric] bt c "1.prems"])
    qed
    with True fs fr show ?thesis
      by (simp add: Inspect_unfold rename_children)
  qed
qed

lemma rename_gopLabelFor:
  "gopLabelFor (map (rename g) path) = map_option (rename g) (gopLabelFor path)"
proof (cases path)
  case Nil
  then show ?thesis by (simp add: gopLabelFor_def)
next
  case (Cons a r)
  then show ?thesis
    by (cases r) (auto simp: gopLabelFor_def rename_sels)
qed

lemma map_option_nid_rename [simp]:
  "map_option nid (map_option (rename g) l) = map_option nid l"
  by (cases l) simp_all

lemma rename_findLoop:
  "findLoop (map_option (rename g) sl) (map (rename g) path)
     = map_option (\<lambda>(n, l). (rename g n, map_option (rename g) l)) (findLoop sl path)"
proof (induction path)
  case Nil
  then show ?case by simp
next
  case (Cons n rest)
  have "gopLabelFor (rename g n # map (rename g) rest)
          = map_option (rename g) (gopLabelFor (n # rest))"
    using rename_gopLabelFor[of g "n # rest"] by simp
  with Cons show ?case by (simp add: Let_def)
qed

lemma rename_findSwitch:
  "findSwitch (map_option (rename g) sl) (map (rename g) path)
     = map_option (\<lambda>(n, l). (rename g n, map_option (rename g) l)) (findSwitch sl path)"
proof (induction path)
  case Nil
  then show ?case by simp
next
  case (Cons n rest)
  have "gopLabelFor (rename g n # map (rename g) rest)
          = map_option (rename g) (gopLabelFor (n # rest))"
    using rename_gopLabelFor[of g "n # rest"] by simp
  with Cons show ?case by (simp add: Let_def)
qed

lemma rename_loopBranchVisit:
  "loopBranchVisit (rename g loop) (map_option (rename g) lbl) info (rename g m) s
     = loopBranchVisit loop lbl info m s"
  by (simp add: loopBranchVisit_def rename_sels)

lemma rename_loopContinueVisit:
  "loopContinueVisit (rename g loop) (rename g m) s = loopContinueVisit loop m s"
  by (auto simp: loopContinueVisit_def rename_sels)

lemma rename_labeledBranchVisit:
  "labeledBranchVisit (map_option (rename g) lbl) info (rename g m) s
     = labeledBranchVisit lbl info m s"
  by (simp add: labeledBranchVisit_def rename_sels)

lemma rename_switchBreakVisit:
  "switchBreakVisit (rename g sw) (map_option (rename g) lbl) info (rename g m) s
     = switchBreakVisit sw lbl info m s"
  by (auto simp: switchBreakVisit_def rename_sels)

lemma rename_labeledBreakVisit:
  "labeledBreakVisit (map_option (rename g) lbl) info (rename g m) s
     = labeledBreakVisit lbl info m s"
  by (auto simp: labeledBreakVisit_def rename_sels)

lemma rename_loop_flow:
  "gopHighlightLoopControlFlow (map (rename g) path) info result
     = gopHighlightLoopControlFlow path info result"
proof -
  have f: "findLoop (gopLabelFor (map (rename g) path)) (map (rename g) path)
     = map_option (\<lambda>(n, l). (rename g n, map_option (rename g) l))
         (findLoop (gopLabelFor path) path)"
    by (simp only: rename_gopLabelFor rename_findLoop)
  show ?thesis
  proof (cases "findLoop (gopLabelFor path) path")
    case None
    then show ?thesis by (simp add: gopHighlightLoopControlFlow_def f)
  next
    case (Some a)
    obtain loop lbl where a: "a = (loop, lbl)" by (cases a)
    have i1: "Inspect (rename g loop)
                (loopBranchVisit (rename g loop) (map_option (rename g) lbl) info) s
              = Inspect loop (loopBranchVisit loop lbl info) s" for s lbl
      by (rule Inspect_rename) (rule rename_loopBranchVisit)
    have i2: "Inspect (rename g loop) (loopContinueVisit (rename g loop)) s
              = Inspect loop (loopContinueVisit loop) s" for s
      by (rule Inspect_rename) (rule rename_loopContinueVisit)
    have i3: "Inspect (rename g loop) (labeledBranchVisit (map_option (rename g) lbl) info) s
              = Inspect loop (labeledBranchVisit lbl info) s" for s lbl
      by (rule Inspect_rename) (rule rename_labeledBranchVisit)
    show ?thesis
      by (simp add: gopHighlightLoopControlFlow_def f Some a Let_def i1 i2 i3
            i1[of None, simplified] i3[of None, simplified])
  qed
qed

lemma rename_switch_flow:
  "gopHighlightSwitchFlow (map (rename g) path) info result
     = gopHighlightSwitchFlow path info result"
proof -
  have f: "findSwitch (gopLabelFor (map (rename g) path)) (map (rename g) path)
     = map_option (\<lambda>(n, l). (rename g n, map_option (rename g) l))
         (findSwitch (gopLabelFor path) path)"
    by (simp only: rename_gopLabelFor rename_findSwitch)
  show ?thesis
  proof (cases "findSwitch (gopLabelFor path) path")
    case None
    then show ?thesis by (simp add: gopHighlightSwitchFlow_def f)
  next
    case (Some a)
    obtain sw lbl where a: "a = (sw, lbl)" by (cases a)
    have i1: "Inspect (rename g sw)
                (switchBreakVisit (rename g sw) (map_option (rename g) lbl) info) s
              = Inspect sw (switchBreakVisit sw lbl info) s" for s lbl
      by (rule Inspect_rename) (rule rename_switchBreakVisit)
    have i2: "Inspect (rename g sw) (labeledBreakVisit (map_option (rename g) lbl) info) s
              = Inspect sw (labeledBreakVisit lbl info) s" for s lbl
      by (rule Inspect_rename) (rule rename_labeledBreakVisit)
    show ?thesis
      by (simp add: gopHighlightSwitchFlow_def f Some a Let_def i1 i2
            i1[of None, simplified] i2[of None, simplified])
  qed
qed


lemma rename_labeledWalk:
  "labeledWalk (map (rename g) path) info use result = labeledWalk path info use result"
proof (induction path)
  case Nil
  then show ?case by simp
next
  case (Cons n rest)
  show ?case
  proof (cases "is_LabeledStmt (shape n) \<and> Defs info (nid (Label (shape n))) = Some use")
    case False
    have c: "(is_LabeledStmt (shape (rename g n))
                 \<and> Defs info (nid (Label (shape (rename g n)))) = Some use)
             = (is_LabeledStmt (shape n) \<and> Defs info (nid (Label (shape n))) = Some use)"
      by (cases "is_LabeledStmt (shape n)") (simp_all add: rename_sels)
    show ?thesis
      by (simp only: list.map labeledWalk.simps c if_not_P[OF False] Cons.IH)
  next
    case True
    then have t: "is_LabeledStmt (shape (rename g n))
                 \<and> Defs info (nid (Label (shape (rename g n)))) = Some use"
      by (simp add: rename_sels)
    have s: "Stmt (shape (rename g n)) = rename g (Stmt (shape n))"
      using True by (simp add: rename_sels)
    have l: "gopHighlightLoopControlFlow [rename g (Stmt (shape n)), rename g n] info result
           = gopHighlightLoopControlFlow [Stmt (shape n), n] info result"
      using rename_loop_flow[of g "[Stmt (shape n), n]"] by simp
    have w: "gopHighlightSwitchFlow [rename g (Stmt (shape n)), rename g n] info result
           = gopHighlightSwitchFlow [Stmt (shape n), n] info result"
      using rename_switch_flow[of g "[Stmt (shape n), n]"] by simp
    have "labeledWalk (rename g n # map (rename g) rest) info use result
          = (if isLoop (Stmt (shape n))
             then gopHighlightLoopControlFlow [Stmt (shape n), n] info result
             else if is_SwitchStmt (shape (Stmt (shape n)))
             then gopHighlightSwitchFlow [Stmt (shape n), n] info result
             else result)"
      using t by (simp add: Let_def s l w)
    also have "\<dots> = labeledWalk (n # rest) info use result"
      using True by (simp add: Let_def)
    finally show ?thesis by simp
  qed
qed

lemma rename_labeled_flow:
  assumes "is_BranchStmt (shape stmt)"
  shows "gopHighlightLabeledFlow (map (rename g) path) info (rename g stmt) result
     = gopHighlightLabeledFlow path info stmt result"
proof -
  have "UsesOf info (BLabel (shape (rename g stmt))) = UsesOf info (BLabel (shape stmt))"
    using assms by (simp add: rename_sels)
  then show ?thesis
    by (simp add: gopHighlightLabeledFlow_def rename_labeledWalk split: option.splits)
qed

lemma labeledWalk_find:
  "labeledWalk path info use result =
     (case labelTarget info use path of
        None \<Rightarrow> result
      | Some t \<Rightarrow>
          if isLoop (Stmt (shape t))
          then gopHighlightLoopControlFlow [Stmt (shape t), t] info result
          else if is_SwitchStmt (shape (Stmt (shape t)))
          then gopHighlightSwitchFlow [Stmt (shape t), t] info result
          else result)"
  by (induction path) (auto simp: labelTarget_def Let_def)

lemma labelTarget_Some:
  "labelTarget info use path = Some t \<Longrightarrow>
     t \<in> set path \<and> is_LabeledStmt (shape t) \<and> Defs info (nid (Label (shape t))) = Some use"
  by (auto simp: labelTarget_def find_Some_iff)

lemma labeled_loop_found:
  assumes "is_LabeledStmt (shape t)" and "isLoop s"
  shows "findLoop (gopLabelFor [s, t]) [s, t] = Some (s, Some (Label (shape t)))"
  using assms by (simp add: gopLabelFor_def)

lemma labeled_switch_found:
  assumes "is_LabeledStmt (shape t)" and "is_SwitchStmt (shape s)"
  shows "findSwitch (gopLabelFor [s, t]) [s, t] = Some (s, Some (Label (shape t)))"
  using assms by (simp add: gopLabelFor_def)

text \<open>
  Claim C6. With the cursor on a \<^verbatim>\<open>break\<close> or \<^verbatim>\<open>continue\<close> that has a label, the target is
  the first labeled statement of the path whose label has, in \<open>Defs\<close>, the object that the
  label of the branch has in \<open>Uses\<close>. Its statement, when a loop or a switch, is
  highlighted as for the cursor on it, keyword included. When the label of the branch has
  no entry in \<open>Uses\<close>, the answer is the empty result and no error. No name is compared:
  the answer is the same when every identifier of the file is spelled anew, in any way.
\<close>

theorem C6_labeled_branch_by_binding:
  assumes "is_BranchStmt (shape b)"
    and "Tok (shape b) = BREAK \<or> Tok (shape b) = CONTINUE"
    and "BLabel (shape b) = Some l"
  shows
    "gopHighlightPath indexAt (b # rest) root info =
       Inr (case Uses info (nid l) of
              None \<Rightarrow> {}
            | Some use \<Rightarrow>
                (case labelTarget info use (b # rest) of
                   None \<Rightarrow> {}
                 | Some t \<Rightarrow>
                     if isLoop (Stmt (shape t))
                     then gopHighlightLoopControlFlow [Stmt (shape t), t] info {}
                     else if is_SwitchStmt (shape (Stmt (shape t)))
                     then gopHighlightSwitchFlow [Stmt (shape t), t] info {}
                     else {}))
     \<and> (Uses info (nid l) = None \<longrightarrow> gopHighlightPath indexAt (b # rest) root info = Inr {})
     \<and> (\<forall>use t. Uses info (nid l) = Some use \<and> labelTarget info use (b # rest) = Some t \<longrightarrow>
           is_LabeledStmt (shape t) \<and> Defs info (nid (Label (shape t))) = Uses info (nid l)
           \<and> (isLoop (Stmt (shape t)) \<longrightarrow>
                (Pos (Stmt (shape t)), Pos (Stmt (shape t)) + 3)
                  \<in> gopHighlightLoopControlFlow [Stmt (shape t), t] info {})
           \<and> (is_SwitchStmt (shape (Stmt (shape t))) \<longrightarrow>
                (Pos (Stmt (shape t)), Pos (Stmt (shape t)) + 6)
                  \<in> gopHighlightSwitchFlow [Stmt (shape t), t] info {}))
     \<and> (\<forall>g. gopHighlightPath indexAt (map (rename g) (b # rest)) (rename g root) info
              = gopHighlightPath indexAt (b # rest) root info)"
proof -
  have kinds: "\<not> is_BasicLit (shape b)" "\<not> is_ReturnStmt (shape b)" "\<not> is_FuncDecl (shape b)"
    "\<not> is_FuncType (shape b)" "\<not> is_Ident (shape b)" "\<not> isLoop b"
    "\<not> is_SwitchStmt (shape b)"
    using assms(1) by (cases "shape b"; simp add: isLoop_def)+
  have route: "gopHighlightPath indexAt (b # rest) root info =
       Inr (case Uses info (nid l) of
              None \<Rightarrow> {}
            | Some use \<Rightarrow>
                (case labelTarget info use (b # rest) of
                   None \<Rightarrow> {}
                 | Some t \<Rightarrow>
                     if isLoop (Stmt (shape t))
                     then gopHighlightLoopControlFlow [Stmt (shape t), t] info {}
                     else if is_SwitchStmt (shape (Stmt (shape t)))
                     then gopHighlightSwitchFlow [Stmt (shape t), t] info {}
                     else {}))"
  proof -
    have "gopHighlightPath indexAt (b # rest) root info
          = Inr (gopHighlightLabeledFlow (b # rest) info b {})"
      using kinds assms by (auto simp: gopHighlightPath_def)
    also have "gopHighlightLabeledFlow (b # rest) info b {}
          = (case Uses info (nid l) of
               None \<Rightarrow> {}
             | Some use \<Rightarrow> labeledWalk (b # rest) info use {})"
      using assms(3) by (simp add: gopHighlightLabeledFlow_def UsesOf_def)
    finally show ?thesis
      by (simp add: labeledWalk_find del: labeledWalk.simps split: option.splits)
  qed
  show ?thesis
  proof (intro conjI allI impI)
    show "gopHighlightPath indexAt (b # rest) root info =
       Inr (case Uses info (nid l) of
              None \<Rightarrow> {}
            | Some use \<Rightarrow>
                (case labelTarget info use (b # rest) of
                   None \<Rightarrow> {}
                 | Some t \<Rightarrow>
                     if isLoop (Stmt (shape t))
                     then gopHighlightLoopControlFlow [Stmt (shape t), t] info {}
                     else if is_SwitchStmt (shape (Stmt (shape t)))
                     then gopHighlightSwitchFlow [Stmt (shape t), t] info {}
                     else {}))"
      by (rule route)
  next
    assume "Uses info (nid l) = None"
    then show "gopHighlightPath indexAt (b # rest) root info = Inr {}"
      using route by simp
  next
    fix use t
    assume h: "Uses info (nid l) = Some use \<and> labelTarget info use (b # rest) = Some t"
    then show "is_LabeledStmt (shape t)"
      using labelTarget_Some by blast
    from h show "Defs info (nid (Label (shape t))) = Uses info (nid l)"
      using labelTarget_Some[of info use "b # rest" t] by simp
  next
    fix use t
    assume h: "Uses info (nid l) = Some use \<and> labelTarget info use (b # rest) = Some t"
    assume s: "isLoop (Stmt (shape t))"
    from h have "is_LabeledStmt (shape t)" using labelTarget_Some by blast
    from loop_result[OF labeled_loop_found[OF this s], of info "{}"]
    show "(Pos (Stmt (shape t)), Pos (Stmt (shape t)) + 3)
                  \<in> gopHighlightLoopControlFlow [Stmt (shape t), t] info {}"
      by simp
  next
    fix use t
    assume h: "Uses info (nid l) = Some use \<and> labelTarget info use (b # rest) = Some t"
    assume s: "is_SwitchStmt (shape (Stmt (shape t)))"
    from h have "is_LabeledStmt (shape t)" using labelTarget_Some by blast
    from switch_result[OF labeled_switch_found[OF this s], of info "{}"]
    show "(Pos (Stmt (shape t)), Pos (Stmt (shape t)) + 6)
                  \<in> gopHighlightSwitchFlow [Stmt (shape t), t] info {}"
      by simp
  next
    fix g
    have "gopHighlightPath indexAt (map (rename g) (b # rest)) (rename g root) info
          = Inr (gopHighlightLabeledFlow (map (rename g) (b # rest)) info (rename g b) {})"
      using kinds assms by (auto simp: gopHighlightPath_def rename_sels)
    also have "\<dots> = Inr (gopHighlightLabeledFlow (b # rest) info b {})"
      by (simp only: rename_labeled_flow[OF assms(1)])
    also have "\<dots> = gopHighlightPath indexAt (b # rest) root info"
      using kinds assms by (auto simp: gopHighlightPath_def)
    finally show "gopHighlightPath indexAt (map (rename g) (b # rest)) (rename g root) info
              = gopHighlightPath indexAt (b # rest) root info" .
  qed
qed

text \<open>The cursor on \<^verbatim>\<open>break L\<close> in \<^verbatim>\<open>func f() { L: switch { case 1: for { break L } } }\<close>, with the
  tables of the file and with empty tables.\<close>

theorem C6_labeled_branch_witness:
  "is_BranchStmt (shape lsw_break) \<and> Tok (shape lsw_break) = BREAK
   \<and> BLabel (shape lsw_break) = Some (Node 10 43 44 (Ident ''L''))
   \<and> Uses lsw_info 10 = Some (Object 1)
   \<and> labelTarget lsw_info (Object 1)
        [lsw_break, lsw_block, lsw_for, lsw_case, lsw_body, lsw_switch, lsw_labeled, lsw_fbody, lsw_func, lsw_file]
       = Some lsw_labeled
   \<and> gopHighlightPath nodeAtPos
        [lsw_break, lsw_block, lsw_for, lsw_case, lsw_body, lsw_switch, lsw_labeled, lsw_fbody, lsw_func, lsw_file]
        lsw_file lsw_info
       = Inr (gopHighlightSwitchFlow [lsw_switch, lsw_labeled] lsw_info {})
   \<and> gopHighlightSwitchFlow [lsw_switch, lsw_labeled] lsw_info {} = {(14, 20), (37, 44)}
   \<and> Uses no_info 10 = None
   \<and> gopHighlightPath nodeAtPos
        [lsw_break, lsw_block, lsw_for, lsw_case, lsw_body, lsw_switch, lsw_labeled, lsw_fbody, lsw_func, lsw_file]
        lsw_file no_info
       = Inr {}"
proof -
  let ?rest = "[lsw_block, lsw_for, lsw_case, lsw_body, lsw_switch, lsw_labeled, lsw_fbody, lsw_func, lsw_file]"
  have b: "is_BranchStmt (shape lsw_break)" "Tok (shape lsw_break) = BREAK \<or> Tok (shape lsw_break) = CONTINUE"
    "BLabel (shape lsw_break) = Some (Node 10 43 44 (Ident ''L''))"
    by (simp_all add: lsw_defs)
  have u: "Uses lsw_info (nid (Node 10 43 44 (Ident ''L''))) = Some (Object 1)"
    by (simp add: lsw_defs)
  have v: "Uses no_info (nid (Node 10 43 44 (Ident ''L''))) = None"
    by (simp add: no_info_def)
  have t: "labelTarget lsw_info (Object 1) (lsw_break # ?rest) = Some lsw_labeled"
    by (simp add: labelTarget_def lsw_defs)
  have k: "Stmt (shape lsw_labeled) = lsw_switch" "\<not> isLoop lsw_switch"
    "is_SwitchStmt (shape lsw_switch)"
    by (simp_all add: lsw_defs isLoop_def)
  note c1 = C6_labeled_branch_by_binding[where indexAt = nodeAtPos and root = lsw_file
      and info = lsw_info and rest = ?rest, OF b, THEN conjunct1]
  have r: "gopHighlightPath nodeAtPos (lsw_break # ?rest) lsw_file lsw_info
       = Inr (gopHighlightSwitchFlow [lsw_switch, lsw_labeled] lsw_info {})"
    using c1 u t k by simp
  note c2 = C6_labeled_branch_by_binding[where indexAt = nodeAtPos and root = lsw_file
      and info = no_info and rest = ?rest, OF b, THEN conjunct2, THEN conjunct1, rule_format, OF v]
  have e: "gopHighlightSwitchFlow [lsw_switch, lsw_labeled] lsw_info {} = {(14, 20), (37, 44)}"
    by (simp add: gopHighlightSwitchFlow_def gopLabelFor_def Let_def lsw_defs Inspect.simps
          switchBreakVisit_def labeledBreakVisit_def isLoop_def UsesOf_def DefsOf_def
          rangeOf_def children_def opt_list_def insert_commute)
  have "Tok (shape lsw_break) = BREAK" by (simp add: lsw_defs)
  with b u v t r c2 e show ?thesis by simp
qed

section \<open>Errors and empty results\<close>

lemma PathEnclosingInterval_empty:
  "PathEnclosingInterval root pos pos = [] \<longleftrightarrow> pos < Pos root \<or> End root < pos"
  by (auto simp: PathEnclosingInterval_def Let_def pathFrom_nonempty)

lemma enclosingPath_error:
  "enclosingPath pei root pos = Inl e \<longleftrightarrow> e = NoEnclosingPosition \<and> pei root pos pos = []"
  by (auto simp: enclosingPath_def Let_def)

lemma enclosingPath_nonempty: "enclosingPath pei root pos = Inr path \<Longrightarrow> path \<noteq> []"
  by (auto simp: enclosingPath_def Let_def split: if_splits)

lemma gopHighlightPath_no_error:
  "path \<noteq> [] \<Longrightarrow> \<exists>r. gopHighlightPath indexAt path root info = Inr r"
  by (cases path)
     (auto simp: gopHighlightPath_def Let_def split: list.splits option.splits token.splits)

lemma gopHighlightPath_unrecognized:
  "path \<noteq> [] \<Longrightarrow> \<not> recognized (hd path) \<Longrightarrow> gopHighlightPath indexAt path root info = Inr {}"
  by (cases path) (auto simp: gopHighlightPath_def recognized_def)

lemma GopHighlight_errors:
  "(GopHighlight indexAt pei (Some (root, info)) PositionPos PosRange position
      = Inl NoEnclosingPosition
    \<longleftrightarrow> (\<exists>pos. PositionPos position = Some pos \<and> pei root pos pos = []))
   \<and> (GopHighlight indexAt pei (Some (root, info)) PositionPos PosRange position
      = Inl PositionError
    \<longleftrightarrow> PositionPos position = None)
   \<and> (\<forall>pos path. PositionPos position = Some pos \<and> enclosingPath pei root pos = Inr path
                  \<and> \<not> recognized (hd path)
        \<longrightarrow> GopHighlight indexAt pei (Some (root, info)) PositionPos PosRange position = Inr {})
   \<and> GopHighlight indexAt pei (Some (root, info)) PositionPos PosRange position
      \<noteq> Inl IndexPanic"
proof (cases "PositionPos position")
  case None
  then show ?thesis by (simp add: GopHighlight_def)
next
  case (Some pos)
  show ?thesis
  proof (cases "enclosingPath pei root pos")
    case (Inl e)
    then have "e = NoEnclosingPosition" "pei root pos pos = []"
      by (simp_all add: enclosingPath_error)
    with Inl Some show ?thesis by (simp add: GopHighlight_def)
  next
    case (Inr path)
    then have ne: "path \<noteq> []" by (rule enclosingPath_nonempty)
    from Inr have np: "pei root pos pos \<noteq> []"
      using enclosingPath_error[of pei root pos NoEnclosingPosition] by auto
    obtain r where r: "gopHighlightPath indexAt path root info = Inr r"
      using gopHighlightPath_no_error[OF ne] by blast
    have g: "GopHighlight indexAt pei (Some (root, info)) PositionPos PosRange position =
        (if (\<exists>rng \<in> r. PosRange rng = None) then Inl RangeError
         else Inr (\<Union>rng \<in> r. set_option (PosRange rng)))"
      by (simp add: GopHighlight_def Some Inr r)
    have u: "GopHighlight indexAt pei (Some (root, info)) PositionPos PosRange position = Inr {}"
      if "\<not> recognized (hd path)"
      using g r gopHighlightPath_unrecognized[OF ne that, of indexAt root info] by simp
    from g np Some Inr u show ?thesis by auto
  qed
qed

text \<open>
  Claim C7. The package of the file has been found. \<^verbatim>\<open>GopHighlight\<close> answers the error of
  no enclosing node exactly when the position has an offset and the path of that offset is
  empty; with the path resolution of the specification that is exactly when the offset
  lies before the start or after the end of the file. The other error of this part of the
  code, that of a position the file has no offset for, arises exactly when the conversion
  of the position fails, before there is an offset. When the path that is settled on ends
  in a node of a kind the dispatch has no case for, the answer is the empty result and no
  error. The panic of an empty path never arises.
\<close>

theorem C7_errors_and_empty_results:
  "(GopHighlight indexAt pei (Some (root, info)) PositionPos PosRange position
      = Inl NoEnclosingPosition
    \<longleftrightarrow> (\<exists>pos. PositionPos position = Some pos \<and> pei root pos pos = []))
   \<and> (GopHighlight indexAt PathEnclosingInterval (Some (root, info)) PositionPos PosRange
        position = Inl NoEnclosingPosition
    \<longleftrightarrow> (\<exists>pos. PositionPos position = Some pos \<and> (pos < Pos root \<or> End root < pos)))
   \<and> (GopHighlight indexAt pei (Some (root, info)) PositionPos PosRange position
      = Inl PositionError
    \<longleftrightarrow> PositionPos position = None)
   \<and> (\<forall>pos path. PositionPos position = Some pos \<and> enclosingPath pei root pos = Inr path
                  \<and> \<not> recognized (hd path)
        \<longrightarrow> GopHighlight indexAt pei (Some (root, info)) PositionPos PosRange position = Inr {})
   \<and> GopHighlight indexAt pei (Some (root, info)) PositionPos PosRange position
      \<noteq> Inl IndexPanic"
proof (intro conjI)
  note e = GopHighlight_errors[of indexAt pei root info PositionPos PosRange position]
  show "GopHighlight indexAt pei (Some (root, info)) PositionPos PosRange position
      = Inl NoEnclosingPosition
    \<longleftrightarrow> (\<exists>pos. PositionPos position = Some pos \<and> pei root pos pos = [])"
    by (rule e[THEN conjunct1])
  show "GopHighlight indexAt PathEnclosingInterval (Some (root, info)) PositionPos PosRange
        position = Inl NoEnclosingPosition
    \<longleftrightarrow> (\<exists>pos. PositionPos position = Some pos \<and> (pos < Pos root \<or> End root < pos))"
    using GopHighlight_errors[of indexAt PathEnclosingInterval root info PositionPos PosRange
        position, THEN conjunct1]
    by (simp only: PathEnclosingInterval_empty)
  show "GopHighlight indexAt pei (Some (root, info)) PositionPos PosRange position
      = Inl PositionError
    \<longleftrightarrow> PositionPos position = None"
    by (rule e[THEN conjunct2, THEN conjunct1])
  show "\<forall>pos path. PositionPos position = Some pos \<and> enclosingPath pei root pos = Inr path
                  \<and> \<not> recognized (hd path)
        \<longrightarrow> GopHighlight indexAt pei (Some (root, info)) PositionPos PosRange position = Inr {}"
    by (rule e[THEN conjunct2, THEN conjunct2, THEN conjunct1])
  show "GopHighlight indexAt pei (Some (root, info)) PositionPos PosRange position
      \<noteq> Inl IndexPanic"
    by (rule e[THEN conjunct2, THEN conjunct2, THEN conjunct2])
qed

text \<open>The file \<^verbatim>\<open>x+1+y\<close>, of length 5. The offset 7 lies after its end: no enclosing node. The
  offset 5 is its end: no error, the identifier \<^verbatim>\<open>y\<close> before it is highlighted. With a
  conversion that knows the positions 0 to 5 only, the position 7 is the error of the
  conversion. The offset 3 is on the second operator, in a binary expression: the empty
  result.\<close>

theorem C7_errors_witness:
  "GopHighlight nodeAtPos PathEnclosingInterval (Some (sum_file, no_info)) Some sum_PosRange 7
     = Inl NoEnclosingPosition
   \<and> End sum_file = 5
   \<and> GopHighlight nodeAtPos PathEnclosingInterval (Some (sum_file, no_info)) Some sum_PosRange 5
     = Inr {(4, 5)}
   \<and> GopHighlight nodeAtPos PathEnclosingInterval (Some (sum_file, no_info)) Some sum_PosRange 5
     \<noteq> Inl NoEnclosingPosition
   \<and> sum_PositionPos 7 = None
   \<and> GopHighlight nodeAtPos PathEnclosingInterval (Some (sum_file, no_info))
        sum_PositionPos sum_PosRange 7 = Inl PositionError
   \<and> enclosingPath PathEnclosingInterval sum_file 3 = Inr [sum_outer, sum_file]
   \<and> is_Other (shape sum_outer)
   \<and> GopHighlight nodeAtPos PathEnclosingInterval (Some (sum_file, no_info)) Some sum_PosRange 3
     = Inr {}"
proof -
  let ?G = "GopHighlight nodeAtPos PathEnclosingInterval (Some (sum_file, no_info))"
  note t = C7_errors_and_empty_results[where indexAt = nodeAtPos
      and pei = PathEnclosingInterval and root = sum_file and info = no_info
      and PosRange = sum_PosRange]
  have ext: "Pos sum_file = 0" "End sum_file = 5" by (simp_all add: sum_defs)
  have g7: "?G Some sum_PosRange 7 = Inl NoEnclosingPosition"
    using t[where PositionPos = Some and position = 7, THEN conjunct2, THEN conjunct1]
    by (simp add: ext)
  have n5: "?G Some sum_PosRange 5 \<noteq> Inl NoEnclosingPosition"
    using t[where PositionPos = Some and position = 5, THEN conjunct2, THEN conjunct1]
    by (simp add: ext)
  have e5: "enclosingPath PathEnclosingInterval sum_file 5
            = Inr [Node 5 4 5 (Ident ''y''), sum_outer, sum_file]"
    by (simp add: enclosingPath_def PathEnclosingInterval_def sum_defs pathFrom.simps
          children_def)
  have h5: "gopHighlightPath nodeAtPos [Node 5 4 5 (Ident ''y''), sum_outer, sum_file]
              sum_file no_info = Inr {(4, 5)}"
    by (simp add: gopHighlightPath_def gopHighlightFuncControlFlow_def
          gopHighlightIdentifier_def identVisit_def sum_defs no_info_def func_eval
          Inspect.simps children_def rangeOf_def)
  have g5: "?G Some sum_PosRange 5 = Inr {(4, 5)}"
    by (simp add: GopHighlight_def e5 h5 sum_PosRange_def)
  have p7: "sum_PositionPos 7 = None" by (simp add: sum_PositionPos_def)
  have s7: "?G sum_PositionPos sum_PosRange 7 = Inl PositionError"
    using t[where PositionPos = sum_PositionPos and position = 7, THEN conjunct2,
        THEN conjunct2, THEN conjunct1] p7 by simp
  have e3: "enclosingPath PathEnclosingInterval sum_file 3 = Inr [sum_outer, sum_file]"
    by (simp add: enclosingPath_def PathEnclosingInterval_def sum_defs pathFrom.simps
          children_def)
  have o: "is_Other (shape sum_outer)" "\<not> recognized (hd [sum_outer, sum_file])"
    by (simp_all add: sum_defs recognized_def isLoop_def)
  have "Some (3 :: int) = Some 3 \<and> enclosingPath PathEnclosingInterval sum_file 3
          = Inr [sum_outer, sum_file] \<and> \<not> recognized (hd [sum_outer, sum_file])"
    using e3 o(2) by simp
  from t[where PositionPos = Some and position = 3, THEN conjunct2, THEN conjunct2,
      THEN conjunct2, THEN conjunct1, rule_format, OF this]
  have g3: "?G Some sum_PosRange 3 = Inr {}" .
  show ?thesis
    by (intro conjI) (fact g7 ext(2) g5 n5 p7 s7 e3 o(1) g3)+
qed

section \<open>The position after an identifier\<close>



















section \<open>Key-value expressions switch function-exit highlighting off\<close>

lemma funcWalk_keyvalue:
  assumes "is_KeyValueExpr (shape kv)"
    and "\<forall>n \<in> set pre. \<not> is_FuncLit (shape n) \<and> \<not> is_FuncDecl (shape n)"
  shows "funcWalk p0 prev (pre @ kv # post) w = None"
  using assms(2)
proof (induction pre arbitrary: prev w)
  case Nil
  then show ?case using assms(1) by simp
next
  case (Cons n ns)
  then show ?case by (auto split: option.splits)
qed

text \<open>
  Claim C9. When the path holds a key-value expression before its first function literal
  or declaration, function-exit highlighting adds no range: the result is the one it was
  given, also when the key-value expression is inside the results of a return statement.
\<close>

theorem C9_keyvalue_no_function_exits:
  assumes "path = pre @ kv # post"
    and "is_KeyValueExpr (shape kv)"
    and "\<forall>n \<in> set pre. \<not> is_FuncLit (shape n) \<and> \<not> is_FuncDecl (shape n)"
  shows "gopHighlightFuncControlFlow indexAt path result = result"
proof (cases path)
  case Nil
  then show ?thesis by (simp add: gopHighlightFuncControlFlow_def)
next
  case (Cons p0 rest)
  have "funcWalk p0 None path walkInit = None"
    unfolding assms(1) by (rule funcWalk_keyvalue[OF assms(2,3)])
  then show ?thesis
    by (simp add: gopHighlightFuncControlFlow_def Cons)
qed

text \<open>The cursor on \<^verbatim>\<open>v\<close> in \<^verbatim>\<open>func h() M { return M{k: v} }\<close>.\<close>

theorem C9_keyvalue_witness:
  "is_KeyValueExpr (shape kv_kv)
   \<and> is_ReturnStmt (shape kv_ret) \<and> is_FuncDecl (shape kv_func)
   \<and> gopHighlightFuncControlFlow nodeAtPos
        [kv_v, kv_kv, kv_lit, kv_ret, kv_body, kv_func, kv_file] {} = {}"
proof -
  have "gopHighlightFuncControlFlow nodeAtPos
          [kv_v, kv_kv, kv_lit, kv_ret, kv_body, kv_func, kv_file] {} = {}"
    by (rule C9_keyvalue_no_function_exits[where indexAt = nodeAtPos and pre = "[kv_v]" and kv = kv_kv
          and post = "[kv_lit, kv_ret, kv_body, kv_func, kv_file]"])
       (simp_all add: kv_defs)
  then show ?thesis by (simp add: kv_defs)
qed

section \<open>A label without a binding in a construct without a label\<close>

text \<open>
  Claim C10. The loop, or the switch, that is highlighted carries no label. A branch
  statement that the bounded traversal of the loop reaches and whose label has no entry in
  \<open>Uses\<close> is highlighted, and so is such a \<^verbatim>\<open>break\<close> that the bounded traversal of the
  switch reaches: \<open>Uses\<close> of the label and \<open>Defs\<close> of the absent label are both nil.
\<close>

theorem C10_unresolved_label_in_unlabeled_construct:
  "(findLoop (gopLabelFor path) path = Some (loop, None)
      \<and> b \<in> set (walk (loopBreakDescend loop) loop)
      \<and> is_BranchStmt (shape b) \<and> BLabel (shape b) = Some l \<and> Uses info (nid l) = None
    \<longrightarrow> rangeOf b \<in> gopHighlightLoopControlFlow path info result)
   \<and> (findSwitch (gopLabelFor path) path = Some (sw, None)
      \<and> b \<in> set (walk (switchDescend sw) sw)
      \<and> isBreak b \<and> BLabel (shape b) = Some l \<and> Uses info (nid l) = None
    \<longrightarrow> rangeOf b \<in> gopHighlightSwitchFlow path info result)"
proof (intro conjI impI)
  assume a: "findLoop (gopLabelFor path) path = Some (loop, None)
      \<and> b \<in> set (walk (loopBreakDescend loop) loop)
      \<and> is_BranchStmt (shape b) \<and> BLabel (shape b) = Some l \<and> Uses info (nid l) = None"
  then have "exitBranch info None b"
    by (simp add: exitBranch_def labelMatches_def UsesOf_def DefsOf_def)
  with a show "rangeOf b \<in> gopHighlightLoopControlFlow path info result"
    by (simp add: loop_result[of path loop None])
next
  assume a: "findSwitch (gopLabelFor path) path = Some (sw, None)
      \<and> b \<in> set (walk (switchDescend sw) sw)
      \<and> isBreak b \<and> BLabel (shape b) = Some l \<and> Uses info (nid l) = None"
  then have "exitBranch info None b"
    by (simp add: exitBranch_def labelMatches_def UsesOf_def DefsOf_def isBreak_def)
  with a show "rangeOf b \<in> gopHighlightSwitchFlow path info result"
    by (simp add: switch_result[of path sw None])
qed

text \<open>\<^verbatim>\<open>for { break X }\<close> and \<^verbatim>\<open>switch { case 1: break X }\<close> with no binding for \<^verbatim>\<open>X\<close>.\<close>

theorem C10_unresolved_label_witness:
  "findLoop (gopLabelFor [ux_for, ux_for_file]) [ux_for, ux_for_file] = Some (ux_for, None)
   \<and> ux_break \<in> set (walk (loopBreakDescend ux_for) ux_for)
   \<and> BLabel (shape ux_break) = Some (Node 4 12 13 (Ident ''X''))
   \<and> Uses no_info 4 = None
   \<and> (6, 13) \<in> gopHighlightLoopControlFlow [ux_for, ux_for_file] no_info {}
   \<and> findSwitch (gopLabelFor [uxs_switch, uxs_file]) [uxs_switch, uxs_file] = Some (uxs_switch, None)
   \<and> uxs_break \<in> set (walk (switchDescend uxs_switch) uxs_switch)
   \<and> (17, 24) \<in> gopHighlightSwitchFlow [uxs_switch, uxs_file] no_info {}"
proof -
  have l: "findLoop (gopLabelFor [ux_for, ux_for_file]) [ux_for, ux_for_file] = Some (ux_for, None)"
    by (simp add: ux_defs gopLabelFor_def isLoop_def)
  have lw: "ux_break \<in> set (walk (loopBreakDescend ux_for) ux_for)"
    by (simp add: ux_defs walk.simps loopBreakDescend_def isLoop_def children_def opt_list_def)
  have lb: "is_BranchStmt (shape ux_break) \<and> BLabel (shape ux_break) = Some (Node 4 12 13 (Ident ''X''))
     \<and> Uses no_info (nid (Node 4 12 13 (Ident ''X''))) = None"
    by (simp add: ux_defs)
  have s: "findSwitch (gopLabelFor [uxs_switch, uxs_file]) [uxs_switch, uxs_file] = Some (uxs_switch, None)"
    by (simp add: ux_defs gopLabelFor_def isLoop_def)
  have sw: "uxs_break \<in> set (walk (switchDescend uxs_switch) uxs_switch)"
    by (simp add: ux_defs walk.simps switchDescend_def isLoop_def children_def opt_list_def)
  have sb: "isBreak uxs_break \<and> BLabel (shape uxs_break) = Some (Node 6 23 24 (Ident ''X''))
     \<and> Uses no_info (nid (Node 6 23 24 (Ident ''X''))) = None"
    by (simp add: ux_defs isBreak_def)
  from C10_unresolved_label_in_unlabeled_construct[of "[ux_for, ux_for_file]" ux_for ux_break
        "Node 4 12 13 (Ident ''X'')" no_info "{}" uxs_switch]
    l lw lb
  have r1: "rangeOf ux_break \<in> gopHighlightLoopControlFlow [ux_for, ux_for_file] no_info {}"
    by blast
  from C10_unresolved_label_in_unlabeled_construct[of "[uxs_switch, uxs_file]" uxs_switch uxs_break
        "Node 6 23 24 (Ident ''X'')" no_info "{}" uxs_switch]
    s sw sb
  have r2: "rangeOf uxs_break \<in> gopHighlightSwitchFlow [uxs_switch, uxs_file] no_info {}"
    by blast
  have "rangeOf ux_break = (6, 13)" "rangeOf uxs_break = (17, 24)"
    by (simp_all add: ux_defs rangeOf_def)
  with r1 r2 l lw lb s sw show ?thesis by simp
qed

end
